theory Spec2Isabelle
  imports Main "HOL-Library.Log_Nat"
begin

section \<open>Python values used by the bond dashboard\<close>

subsection \<open>Exceptions\<close>

text \<open>
  Every exception that a modelled operation can raise is a value. A computation that may
  raise returns \<open>error + 'a\<close>, with \<open>Inl\<close> for the exception; \<open>and_then\<close> sequences two
  such computations and stops at the first exception.
\<close>

datatype error = OverflowError | ZeroDivisionError | IndexError | ValueError | AssertionError
  | OutOfBoundsDatetime

definition and_then :: "error + 'a \<Rightarrow> ('a \<Rightarrow> error + 'b) \<Rightarrow> error + 'b" where
  "and_then m f = (case m of Inl e \<Rightarrow> Inl e | Inr x \<Rightarrow> f x)"

subsection \<open>Floats: IEEE 754 binary64 with round-to-nearest, ties-to-even\<close>

text \<open>
  A Python \<open>float\<close> is a binary64 number. A finite one is modelled by its exact rational
  value; the two zeros are identified (they compare equal in Python, and nothing in the
  modelled code tells them apart). Every arithmetic operation computes the exact rational
  result and rounds it with \<open>fl\<close>.

  \<open>rne\<close> rounds a rational to the nearest integer, ties to the even one.
  \<open>ilog2 x\<close> is the binary exponent of a non-zero \<open>x\<close>: \<open>2 powi ilog2 x \<le> \<bar>x\<bar> < 2 powi (ilog2 x + 1)\<close>.
  \<open>round_to_grid\<close> rounds to 53 significant bits, with the exponent bounded below by
  \<open>- 1022\<close> (so small numbers are rounded to multiples of \<open>2 powi (- 1074)\<close>); a result of
  magnitude \<open>2 ^ 1024\<close> or more overflows to an infinity.
\<close>

datatype pyfloat = Fin rat | PInf | NInf | NaN

definition rne :: "rat \<Rightarrow> int" where
  "rne x = (let f = \<lfloor>x\<rfloor>; d = x - of_int f
            in if d < 1 / 2 then f
               else if 1 / 2 < d then f + 1
               else if even f then f else f + 1)"

definition ilog2 :: "rat \<Rightarrow> int" where
  "ilog2 x = (let (p, q) = quotient_of \<bar>x\<bar>; e0 = bitlen p - bitlen q
              in if 2 powi e0 \<le> \<bar>x\<bar> then e0 else e0 - 1)"

definition round_to_grid :: "rat \<Rightarrow> rat" where
  "round_to_grid x =
     (let q = 2 powi (max (ilog2 x) (- 1022) - 52) in of_int (rne (x / q)) * q)"

definition huge :: rat where
  "huge = 2 ^ 1024"

definition fl :: "rat \<Rightarrow> pyfloat" where
  "fl x = (let y = round_to_grid x
           in if huge \<le> y then PInf
              else if y \<le> - huge then NInf
              else Fin y)"

text \<open>A decimal literal of the source denotes the double nearest to it.\<close>

definition lit :: "rat \<Rightarrow> pyfloat" where
  "lit q = fl q"

fun fneg :: "pyfloat \<Rightarrow> pyfloat" where
  "fneg (Fin a) = Fin (- a)"
| "fneg PInf = NInf"
| "fneg NInf = PInf"
| "fneg NaN = NaN"

fun fadd :: "pyfloat \<Rightarrow> pyfloat \<Rightarrow> pyfloat" where
  "fadd NaN y = NaN"
| "fadd x NaN = NaN"
| "fadd (Fin a) (Fin b) = fl (a + b)"
| "fadd (Fin a) y = y"
| "fadd x (Fin b) = x"
| "fadd x y = (if x = y then x else NaN)"

definition fsub :: "pyfloat \<Rightarrow> pyfloat \<Rightarrow> pyfloat" where
  "fsub x y = fadd x (fneg y)"

fun fmul :: "pyfloat \<Rightarrow> pyfloat \<Rightarrow> pyfloat" where
  "fmul NaN y = NaN"
| "fmul x NaN = NaN"
| "fmul (Fin a) (Fin b) = fl (a * b)"
| "fmul (Fin a) y = (if a = 0 then NaN else if 0 < a then y else fneg y)"
| "fmul x (Fin b) = (if b = 0 then NaN else if 0 < b then x else fneg x)"
| "fmul x y = (if x = y then PInf else NInf)"

text \<open>Python's float division raises on a zero divisor before it looks at the dividend.\<close>

fun fdiv :: "pyfloat \<Rightarrow> pyfloat \<Rightarrow> error + pyfloat" where
  "fdiv x (Fin b) =
     (if b = 0 then Inl ZeroDivisionError
      else Inr (case x of
                  Fin a \<Rightarrow> fl (a / b)
                | NaN \<Rightarrow> NaN
                | PInf \<Rightarrow> if 0 < b then PInf else NInf
                | NInf \<Rightarrow> if 0 < b then NInf else PInf))"
| "fdiv x NaN = Inr NaN"
| "fdiv NaN y = Inr NaN"
| "fdiv (Fin a) y = Inr (Fin 0)"
| "fdiv x y = Inr NaN"

text \<open>The comparison \<open>x <= y\<close> of two floats; it is false as soon as one of them is a NaN.\<close>

fun fle :: "pyfloat \<Rightarrow> pyfloat \<Rightarrow> bool" where
  "fle NaN y = False"
| "fle x NaN = False"
| "fle NInf y = True"
| "fle x PInf = True"
| "fle (Fin a) (Fin b) = (a \<le> b)"
| "fle x y = False"

text \<open>A float is in the range of two rationals when it is finite and its value lies between them.\<close>

fun in_range :: "rat \<Rightarrow> rat \<Rightarrow> pyfloat \<Rightarrow> bool" where
  "in_range lo hi (Fin y) = (lo \<le> y \<and> y \<le> hi)"
| "in_range lo hi x = False"

text \<open>
  An \<open>int\<close> operand of a mixed operation is converted to the nearest double;
  an \<open>int\<close> too large for a double raises \<open>OverflowError\<close>. The true division of two
  \<open>int\<close>s is correctly rounded and raises in the same way.
\<close>

definition float_of_int :: "int \<Rightarrow> error + pyfloat" where
  "float_of_int n = (case fl (of_int n) of
                       PInf \<Rightarrow> Inl OverflowError
                     | NInf \<Rightarrow> Inl OverflowError
                     | y \<Rightarrow> Inr y)"

definition int_truediv :: "int \<Rightarrow> int \<Rightarrow> error + pyfloat" where
  "int_truediv a b =
     (if b = 0 then Inl ZeroDivisionError
      else case fl (of_int a / of_int b) of
             PInf \<Rightarrow> Inl OverflowError
           | NInf \<Rightarrow> Inl OverflowError
           | y \<Rightarrow> Inr y)"

text \<open>
  \<open>round(x, ndigits)\<close> on a float: the exact value of \<open>x\<close> is rounded to \<open>ndigits\<close>
  decimals, ties to even, and the decimal result is converted to the nearest double.
  Infinities and NaN round to themselves.
\<close>

fun py_round :: "nat \<Rightarrow> pyfloat \<Rightarrow> pyfloat" where
  "py_round ndigits (Fin x) = fl (of_int (rne (x * 10 ^ ndigits)) / 10 ^ ndigits)"
| "py_round ndigits x = x"

subsection \<open>Strings\<close>

text \<open>\<open>sub in s\<close> on strings: \<open>sub\<close> occurs in \<open>s\<close> as a contiguous block.\<close>

fun contains :: "string \<Rightarrow> string \<Rightarrow> bool" where
  "contains sub [] = (sub = [])"
| "contains sub (c # cs) = (take (length sub) (c # cs) = sub \<or> contains sub cs)"

definition digit_char :: "nat \<Rightarrow> char" where
  "digit_char d = char_of (48 + d)"

fun digits :: "nat \<Rightarrow> string" where
  "digits n = (if n < 10 then [digit_char n] else digits (n div 10) @ [digit_char (n mod 10)])"

declare digits.simps [simp del]

text \<open>\<open>str(i)\<close> for an \<open>int\<close>, and \<open>s.zfill(width)\<close>, which pads after a leading sign.\<close>

definition str_int :: "int \<Rightarrow> string" where
  "str_int i = (if i < 0 then CHR ''-'' # digits (nat (- i)) else digits (nat i))"

definition zfill :: "nat \<Rightarrow> string \<Rightarrow> string" where
  "zfill width s =
     (case s of
        [] \<Rightarrow> replicate width CHR ''0''
      | c # cs \<Rightarrow>
          if c = CHR ''+'' \<or> c = CHR ''-''
          then c # replicate (width - length s) CHR ''0'' @ cs
          else replicate (width - length s) CHR ''0'' @ s)"

text \<open>\<open>s.upper()\<close>, on the ASCII letters the sector names are made of.\<close>

definition upper_char :: "char \<Rightarrow> char" where
  "upper_char c = (let n = (of_char c :: nat) in if 97 \<le> n \<and> n \<le> 122 then char_of (n - 32) else c)"

definition upper :: "string \<Rightarrow> string" where
  "upper s = map upper_char s"

subsection \<open>The module \<open>random\<close>\<close>

text \<open>
  The shared random generator is modelled by the stream of raw draws it produces, one raw
  draw per call of a function of \<open>random\<close>; a function that calls \<open>random\<close> takes the
  stream and reads it at the position of each call. The library functions are those of
  CPython's \<open>random.py\<close>:
  \<^item> \<open>random()\<close> returns a multiple of \<open>2 powi (- 53)\<close> in \<open>[0, 1)\<close>;
  \<^item> \<open>uniform(a, b)\<close> is \<open>a + (b - a) * random()\<close>;
  \<^item> \<open>randint(a, b)\<close> is \<open>a + randbelow(b - a + 1)\<close>, and raises \<open>ValueError\<close> on an empty range;
  \<^item> \<open>choice(seq)\<close> is \<open>seq[randbelow(len(seq))]\<close>, and raises \<open>IndexError\<close> on an empty sequence;
  \<^item> \<open>randbelow(n)\<close> returns some number below \<open>n\<close>: the raw draw reduced modulo \<open>n\<close>, so that
    every number below \<open>n\<close> is the result for some raw draw.
\<close>

type_synonym rng = "nat \<Rightarrow> nat"

definition py_random :: "nat \<Rightarrow> pyfloat" where
  "py_random raw = Fin (of_nat (raw mod 2 ^ 53) / 2 ^ 53)"

definition uniform :: "pyfloat \<Rightarrow> pyfloat \<Rightarrow> nat \<Rightarrow> pyfloat" where
  "uniform a b raw = fadd a (fmul (fsub b a) (py_random raw))"

definition randbelow :: "nat \<Rightarrow> nat \<Rightarrow> nat" where
  "randbelow n raw = raw mod n"

definition randint :: "int \<Rightarrow> int \<Rightarrow> nat \<Rightarrow> error + int" where
  "randint a b raw =
     (if b < a then Inl ValueError else Inr (a + int (randbelow (nat (b - a + 1)) raw)))"

definition choice :: "'a list \<Rightarrow> nat \<Rightarrow> error + 'a" where
  "choice seq raw = (if seq = [] then Inl IndexError else Inr (seq ! randbelow (length seq) raw))"

subsection \<open>Dates\<close>

text \<open>
  A \<open>datetime\<close> is the number of microseconds since midnight of 0001-01-01, the first day
  of Python's proleptic Gregorian calendar (ordinal 1). \<open>ord2ymd\<close> is the conversion of an
  ordinal to year, month and day of CPython's \<open>datetime\<close>. The upper limit of the type
  (year 9999) is not modelled: the clock of the dashboard is far from it.
\<close>

type_synonym datetime = int

definition day_us :: int where
  "day_us = 86400000000"

definition plus_days :: "datetime \<Rightarrow> int \<Rightarrow> datetime" where
  "plus_days t d = t + d * day_us"

definition toordinal :: "datetime \<Rightarrow> int" where
  "toordinal t = t div day_us + 1"

definition days_before_month :: "int list" where
  "days_before_month = [- 1, 0, 31, 59, 90, 120, 151, 181, 212, 243, 273, 304, 334]"

definition days_in_month :: "int list" where
  "days_in_month = [- 1, 31, 28, 31, 30, 31, 30, 31, 31, 30, 31, 30, 31]"

definition ord2ymd :: "int \<Rightarrow> int \<times> int \<times> int" where
  "ord2ymd ordinal =
     (let n = ordinal - 1;
          n400 = n div 146097; n = n mod 146097;
          n100 = n div 36524; n = n mod 36524;
          n4 = n div 1461; n = n mod 1461;
          n1 = n div 365; n = n mod 365;
          year = n400 * 400 + 1 + n100 * 100 + n4 * 4 + n1
      in if n1 = 4 \<or> n100 = 4 then (year - 1, 12, 31)
         else
           let leapyear = (n1 = 3 \<and> (n4 \<noteq> 24 \<or> n100 = 3));
               month = (n + 50) div 32;
               preceding = days_before_month ! nat month + (if 2 < month \<and> leapyear then 1 else 0)
           in if n < preceding
              then let month = month - 1;
                       preceding = preceding - (days_in_month ! nat month
                                                + (if month = 2 \<and> leapyear then 1 else 0))
                   in (year, month, n - preceding + 1)
              else (year, month, n - preceding + 1))"

definition year_of :: "datetime \<Rightarrow> int" where
  "year_of t = fst (ord2ymd (toordinal t))"

text \<open>\<open>t.strftime("%Y-%m-%d")\<close>, for a year of four digits.\<close>

definition strftime_ymd :: "datetime \<Rightarrow> string" where
  "strftime_ymd t =
     (case ord2ymd (toordinal t) of
        (y, m, d) \<Rightarrow> zfill 4 (str_int y) @ ''-'' @ zfill 2 (str_int m) @ ''-'' @ zfill 2 (str_int d))"

text \<open>\<open>range(n)\<close>: the integers from \<open>0\<close> below \<open>n\<close>, none when \<open>n \<le> 0\<close>.\<close>

definition py_range :: "int \<Rightarrow> int list" where
  "py_range n = [0..n - 1]"

section \<open>The mock data generator\<close>

subsection \<open>Data model\<close>

text \<open>
  The dataclass \<open>Bond\<close>. The ticker is the string
  \<open>f"{sector[:3].upper()} {round(random.uniform(1, 6), 2)}% {maturity_date.year}"\<close>; the model
  keeps its three interpolated values and leaves the decimal rendering of the float out.
\<close>

record ticker_parts =
  tk_prefix :: string
  tk_coupon :: pyfloat
  tk_year :: int

record bond =
  isin :: string
  ticker :: ticker_parts
  coupon :: pyfloat
  maturity :: string
  yield_value :: pyfloat
  spread :: int
  duration :: pyfloat
  rating :: string
  sector :: string
  currency :: string
  price :: pyfloat
  issue_size :: int

text \<open>One row of the frame returned by \<open>generate_historical_data\<close>.\<close>

record hist_point =
  h_date :: datetime
  h_yield_value :: pyfloat
  h_spread :: int
  h_price :: pyfloat

definition SECTORS :: "string list" where
  "SECTORS = [''Government'', ''Corporate IG'', ''Corporate HY'', ''Municipal'', ''Agency'',
              ''Sovereign'']"

definition RATINGS :: "string list" where
  "RATINGS = [''AAA'', ''AA+'', ''AA'', ''AA-'', ''A+'', ''A'', ''A-'', ''BBB+'', ''BBB'', ''BBB-'']"

definition CURRENCIES :: "string list" where
  "CURRENCIES = [''USD'', ''EUR'', ''GBP'', ''JPY'', ''CHF'']"

definition ISSUE_SIZES :: "int list" where
  "ISSUE_SIZES = [500000000, 1000000000, 2000000000, 5000000000]"

subsection \<open>\<open>generate_bonds\<close>\<close>

text \<open>
  \<open>gen_bond\<close> is the body of the loop for the index \<open>i\<close>. One iteration makes eleven calls
  to \<open>random\<close>, in this order: maturity years, sector, rating, yield noise, the coupon shown
  in the ticker, coupon, spread, duration noise, currency, price noise, issue size; the
  iteration \<open>i\<close> reads the stream from position \<open>11 * i\<close>. The \<open>int\<close> arguments of
  \<open>uniform\<close> and the \<open>int\<close> literals of mixed expressions are exact as doubles and are
  written as such. The conversion of \<open>maturity_years\<close> to a float, which both products
  \<open>maturity_years * 0.1\<close> and \<open>maturity_years * 0.85\<close> make, is written once.
\<close>

definition gen_bond :: "datetime \<Rightarrow> rng \<Rightarrow> int \<Rightarrow> error + bond" where
  "gen_bond base_date rng i =
     (let k = 11 * nat i in
      and_then (randint 1 30 (rng k)) (\<lambda>maturity_years.
      let maturity_date = plus_days base_date (365 * maturity_years) in
      and_then (choice SECTORS (rng (k + 1))) (\<lambda>sector.
      and_then (choice RATINGS (rng (k + 2))) (\<lambda>rating.
      and_then (float_of_int maturity_years) (\<lambda>years.
      let base_yield = fadd (lit 2) (fmul years (lit (1 / 10)));
          base_yield = (if contains ''BBB'' rating then fadd base_yield (lit (3 / 2))
                        else if contains ''A'' rating then fadd base_yield (lit (1 / 2))
                        else base_yield);
          yield_value = py_round 2 (fadd base_yield (uniform (lit (- 1 / 2)) (lit (1 / 2)) (rng (k + 3))));
          ticker = \<lparr>tk_prefix = upper (take 3 sector),
                    tk_coupon = py_round 2 (uniform (Fin 1) (Fin 6) (rng (k + 4))),
                    tk_year = year_of maturity_date\<rparr>;
          coupon = py_round 2 (uniform (Fin 1) (Fin 6) (rng (k + 5)))
      in and_then (randint 10 300 (rng (k + 6))) (\<lambda>spread.
      let duration = py_round 1 (fadd (fmul years (lit (17 / 20)))
                                      (uniform (Fin (- 1)) (Fin 1) (rng (k + 7))))
      in and_then (choice CURRENCIES (rng (k + 8))) (\<lambda>currency.
      let price = fadd (fsub (Fin 100) (fmul (fsub yield_value (Fin 3)) (Fin 5)))
                       (uniform (Fin (- 2)) (Fin 2) (rng (k + 9)))
      in and_then (choice ISSUE_SIZES (rng (k + 10))) (\<lambda>issue_size.
      Inr \<lparr>isin = ''XS'' @ zfill 10 (str_int i),
           ticker = ticker,
           coupon = coupon,
           maturity = strftime_ymd maturity_date,
           yield_value = yield_value,
           spread = spread,
           duration = duration,
           rating = rating,
           sector = sector,
           currency = currency,
           price = price,
           issue_size = issue_size\<rparr>))))))))"

fun bonds_loop :: "datetime \<Rightarrow> rng \<Rightarrow> int list \<Rightarrow> error + bond list" where
  "bonds_loop base_date rng [] = Inr []"
| "bonds_loop base_date rng (i # rest) =
     and_then (gen_bond base_date rng i) (\<lambda>b.
     and_then (bonds_loop base_date rng rest) (\<lambda>bs. Inr (b # bs)))"

text \<open>\<open>now\<close> is the value of \<open>datetime.now()\<close> at the call.\<close>

definition generate_bonds :: "datetime \<Rightarrow> rng \<Rightarrow> int \<Rightarrow> error + bond list" where
  "generate_bonds now rng count = bonds_loop now rng (py_range count)"

subsection \<open>\<open>generate_historical_data\<close>\<close>

text \<open>
  The loop over the dates carries \<open>base_yield\<close> and \<open>base_spread\<close>; the iteration that
  starts at stream position \<open>k\<close> makes two calls to \<open>random\<close>. The frame built from the
  rows is the list of the rows.

  The dates come from \<open>pandas.date_range(end=datetime.now(), periods=days, freq='D')\<close>,
  which is modelled below, after the loop.
\<close>

fun hist_loop :: "rng \<Rightarrow> nat \<Rightarrow> pyfloat \<Rightarrow> int \<Rightarrow> datetime list \<Rightarrow> error + hist_point list" where
  "hist_loop rng k base_yield base_spread [] = Inr []"
| "hist_loop rng k base_yield base_spread (date # dates) =
     (let yield_change = uniform (lit (- 1 / 20)) (lit (1 / 20)) (rng k) in
      and_then (randint (- 2) 2 (rng (k + 1))) (\<lambda>spread_change.
      let base_yield = fadd base_yield yield_change;
          base_spread = base_spread + spread_change;
          row = \<lparr>h_date = date,
                 h_yield_value = py_round 3 base_yield,
                 h_spread = base_spread,
                 h_price = py_round 2 (fsub (Fin 100) (fmul (fsub base_yield (Fin 3)) (Fin 5)))\<rparr>
      in and_then (hist_loop rng (k + 2) base_yield base_spread dates) (\<lambda>rows. Inr (row # rows))))"


text \<open>
  \<open>pandas.date_range(end, periods, freq='D')\<close>, as pandas 2 computes it with its timestamps
  of nanoseconds in 64 bits (counted from 1970-01-01, from 1677-09-21 to 2262-04-11):
  \<^item> \<open>to_timestamp_ns\<close>: the end is converted to a timestamp of nanoseconds
    (\<open>Timestamp(end).as_unit('ns')\<close>), which raises \<open>OutOfBoundsDatetime\<close> outside the 64 bits;
  \<^item> \<open>range_start\<close>: with \<open>e\<close> one day after the end, the start of the range is
    \<open>e - periods * day\<close>, computed with overflow checks (\<open>_generate_range_overflow_safe\<close>):
    \<open>numpy.uint64(periods)\<close> raises \<open>OverflowError\<close> when \<open>periods\<close> is negative or does not fit,
    a product or a start that leaves the 64 bits raises \<open>OutOfBoundsDatetime\<close>, and an \<open>e\<close>
    beyond the last timestamp (an end within the last day of the range) fails;
  \<^item> \<open>arange\<close>: the timestamps are \<open>numpy.arange(start, e, day)\<close>, the start and every day
    after it, below \<open>e\<close>.
  The rows keep the timestamps as values of \<open>datetime\<close>.
\<close>

definition i64max :: int where
  "i64max = 9223372036854775807"

definition epoch_us :: int where
  "epoch_us = 62135596800000000"

definition day_ns :: int where
  "day_ns = 86400000000000"

definition to_timestamp_ns :: "datetime \<Rightarrow> error + int" where
  "to_timestamp_ns t =
     (let v = (t - epoch_us) * 1000
      in if v < - i64max \<or> i64max < v then Inl OutOfBoundsDatetime else Inr v)"

definition of_timestamp_ns :: "int \<Rightarrow> datetime" where
  "of_timestamp_ns v = v div 1000 + epoch_us"

definition np_uint64 :: "int \<Rightarrow> error + int" where
  "np_uint64 n = (if n < 0 \<or> 2 ^ 64 \<le> n then Inl OverflowError else Inr n)"

definition range_start :: "int \<Rightarrow> int \<Rightarrow> error + int" where
  "range_start e periods =
     and_then (np_uint64 periods) (\<lambda>p.
     if 2 ^ 64 \<le> p * day_ns then Inl OutOfBoundsDatetime
     else if e - p * day_ns < - i64max then Inl OutOfBoundsDatetime
     else if i64max < e
          then (if p * day_ns \<le> i64max then Inl AssertionError else Inl OverflowError)
     else Inr (e - p * day_ns))"

definition arange :: "int \<Rightarrow> int \<Rightarrow> int \<Rightarrow> int list" where
  "arange start stop step =
     map (\<lambda>j. start + int j * step) [0..<nat ((stop - start + step - 1) div step)]"

definition pd_date_range :: "datetime \<Rightarrow> int \<Rightarrow> error + datetime list" where
  "pd_date_range end periods =
     and_then (to_timestamp_ns end) (\<lambda>iend.
     let e = iend + day_ns in
     and_then (range_start e periods) (\<lambda>start.
     Inr (map of_timestamp_ns (arange start e day_ns))))"

definition generate_historical_data ::
    "datetime \<Rightarrow> rng \<Rightarrow> string \<Rightarrow> int \<Rightarrow> error + hist_point list" where
  "generate_historical_data now rng isin_label days =
     and_then (pd_date_range now days) (\<lambda>dates. hist_loop rng 0 (lit (7 / 2)) 50 dates)"

text \<open>
  The clocks and the numbers of days that \<open>date_range\<close> accepts: the clock, and the day
  after it, are timestamps; the first date of the series, \<open>days - 1\<close> days before the clock,
  is a timestamp.
\<close>

definition in_clock_range :: "datetime \<Rightarrow> bool" where
  "in_clock_range now \<longleftrightarrow>
     - i64max \<le> (now - epoch_us) * 1000 \<and> (now - epoch_us) * 1000 + day_ns \<le> i64max"


section \<open>The analytics engine\<close>

subsection \<open>\<open>calculate_total_return\<close>\<close>

text \<open>The function makes one call to \<open>random\<close>, after the two divisions of the first line.\<close>

definition calculate_total_return :: "rng \<Rightarrow> bond \<Rightarrow> int \<Rightarrow> error + pyfloat" where
  "calculate_total_return rng bond holding_period_days =
     and_then (fdiv (coupon bond) (Fin 100)) (\<lambda>coupon_rate.
     and_then (int_truediv holding_period_days 365) (\<lambda>year_fraction.
     let coupon_income = fmul coupon_rate year_fraction in
     and_then (fdiv (uniform (Fin (- 2)) (Fin 2) (rng 0)) (Fin 100)) (\<lambda>price_return.
     Inr (py_round 2 (fmul (fadd coupon_income price_return) (Fin 100))))))"

subsection \<open>\<open>generate_yield_curve\<close>\<close>

text \<open>
  The list of tenors mixes \<open>float\<close> and \<open>int\<close> literals. The two tables of base rates are
  the two lists of the \<open>if\<close>; the comprehension over the table makes one call to \<open>random\<close>
  for each rate, in order.
\<close>

datatype pynum = PyInt int | PyFloat pyfloat

record curve =
  tenors :: "pynum list"
  yields :: "pyfloat list"

definition TENORS :: "pynum list" where
  "TENORS = [PyFloat (lit (1 / 4)), PyFloat (lit (1 / 2)), PyInt 1, PyInt 2, PyInt 3, PyInt 5,
             PyInt 7, PyInt 10, PyInt 15, PyInt 20, PyInt 30]"

definition USD_RATES :: "pyfloat list" where
  "USD_RATES = map lit [7 / 2, 37 / 10, 39 / 10, 4, 41 / 10, 42 / 10, 43 / 10, 44 / 10, 9 / 2,
                        46 / 10, 47 / 10]"

definition OTHER_RATES :: "pyfloat list" where
  "OTHER_RATES = map lit [5 / 2, 27 / 10, 29 / 10, 3, 31 / 10, 32 / 10, 33 / 10, 34 / 10, 7 / 2,
                          36 / 10, 37 / 10]"

definition generate_yield_curve :: "rng \<Rightarrow> string \<Rightarrow> curve" where
  "generate_yield_curve rng currency_code =
     (let tenors = TENORS;
          base_rates = (if currency_code = ''USD'' then USD_RATES else OTHER_RATES);
          yields = map (\<lambda>(j, rate). fadd rate (uniform (lit (- 1 / 10)) (lit (1 / 10)) (rng j)))
                       (enumerate 0 base_rates)
      in \<lparr>tenors = tenors, yields = map (py_round 3) yields\<rparr>)"

text \<open>The numeric value of a tenor, for comparing tenors.\<close>

fun tenor_value :: "pynum \<Rightarrow> rat" where
  "tenor_value (PyInt n) = of_int n"
| "tenor_value (PyFloat (Fin q)) = q"
| "tenor_value (PyFloat x) = 0"

section \<open>Concrete inputs\<close>

text \<open>A stream that repeats one raw draw, and a bond, for running the functions.\<close>

definition constant_rng :: "nat \<Rightarrow> rng" where
  "constant_rng raw = (\<lambda>position. raw)"

definition sample_bond :: "string \<Rightarrow> pyfloat \<Rightarrow> bond" where
  "sample_bond name c =
     \<lparr>isin = name,
      ticker = \<lparr>tk_prefix = ''GOV'', tk_coupon = c, tk_year = 2030\<rparr>,
      coupon = c,
      maturity = ''2030-01-01'',
      yield_value = Fin 4,
      spread = 50,
      duration = Fin 5,
      rating = ''AAA'',
      sector = ''Government'',
      currency = name,
      price = Fin 100,
      issue_size = 1000000000\<rparr>"

section \<open>Rounding to the nearest integer\<close>

lemma rne_cases: "rne x = \<lfloor>x\<rfloor> \<or> rne x = \<lfloor>x\<rfloor> + 1"
  by (simp add: rne_def Let_def)

lemma rne_of_int [simp]: "rne (of_int n) = n"
  by (simp add: rne_def)

lemma rne_zero [simp]: "rne 0 = 0"
  using rne_of_int [of 0] by simp

lemma rne_ge_floor: "\<lfloor>x\<rfloor> \<le> rne x"
  using rne_cases [of x] by auto

lemma rne_le_floor1: "rne x \<le> \<lfloor>x\<rfloor> + 1"
  using rne_cases [of x] by auto

lemma rne_mono:
  assumes "x \<le> y"
  shows "rne x \<le> rne y"
proof (cases "\<lfloor>x\<rfloor> < \<lfloor>y\<rfloor>")
  case True
  then show ?thesis using rne_le_floor1 [of x] rne_ge_floor [of y] by linarith
next
  case False
  then have "\<lfloor>x\<rfloor> = \<lfloor>y\<rfloor>" using floor_mono [OF assms] by linarith
  then show ?thesis using assms by (auto simp: rne_def Let_def)
qed

lemma rne_minus: "rne (- x) = - rne x"
proof (cases "x = of_int \<lfloor>x\<rfloor>")
  case True
  then obtain n where n: "x = of_int n" ..
  then have "- x = of_int (- n)" by simp
  then show ?thesis using n rne_of_int by metis
next
  case False
  then have lt: "of_int \<lfloor>x\<rfloor> < x" using of_int_floor_le [of x] by linarith
  have "\<lceil>x\<rceil> = \<lfloor>x\<rfloor> + 1" using False by (metis ceiling_altdef)
  then have fm: "\<lfloor>- x\<rfloor> = - \<lfloor>x\<rfloor> - 1" by (simp add: floor_minus)
  show ?thesis unfolding rne_def Let_def fm using lt by (auto simp: field_simps)
qed

lemma rne_nonneg: "0 \<le> x \<Longrightarrow> 0 \<le> rne x"
  using rne_mono [of 0 x] by simp

section \<open>The binary exponent\<close>

lemma pow2_less_imp_less:
  assumes "(2::rat) powi a < 2 powi b"
  shows "a < b"
proof (rule ccontr)
  assume "\<not> a < b"
  then have "b \<le> a" by simp
  then have "(2::rat) powi b \<le> 2 powi a" by (intro power_int_increasing) auto
  then show False using assms by simp
qed

lemma bitlen_powi_bounds:
  assumes "0 < p"
  shows "(2::rat) powi (bitlen p - 1) \<le> of_int p" and "of_int p < (2::rat) powi (bitlen p)"
proof -
  have b1: "1 \<le> bitlen p"
    using assms bitlen_eq_zero_iff [of p] bitlen_nonneg [of p] by linarith
  have "2 ^ nat (bitlen p - 1) \<le> p" "p < 2 ^ nat (bitlen p)"
    using bitlen_bounds [OF assms] by auto
  then have "(of_int (2 ^ nat (bitlen p - 1)) :: rat) \<le> of_int p"
    "(of_int p :: rat) < of_int (2 ^ nat (bitlen p))"
    unfolding of_int_le_iff of_int_less_iff by auto
  then show "(2::rat) powi (bitlen p - 1) \<le> of_int p" "of_int p < (2::rat) powi (bitlen p)"
    using b1 by (simp_all add: power_int_def)
qed

lemma ilog2_bounds:
  assumes "x \<noteq> 0"
  shows "2 powi (ilog2 x) \<le> \<bar>x\<bar> \<and> \<bar>x\<bar> < 2 powi (ilog2 x + 1)"
proof -
  obtain p q where pq: "quotient_of \<bar>x\<bar> = (p, q)" by (cases "quotient_of \<bar>x\<bar>")
  have q: "0 < q" using pq quotient_of_denom_pos by blast
  have ax: "\<bar>x\<bar> = of_int p / of_int q" using pq quotient_of_div by blast
  have "0 < \<bar>x\<bar>" using assms by simp
  then have p: "0 < p" using ax q by (simp add: zero_less_divide_iff)
  note pb = bitlen_powi_bounds [OF p]
  note qb = bitlen_powi_bounds [OF q]
  have qpos: "(0::rat) < of_int q" using q by simp
  have up: "\<bar>x\<bar> < 2 powi (bitlen p - bitlen q + 1)"
  proof -
    have "of_int p < (2::rat) powi (bitlen p)" by (rule pb)
    also have "\<dots> = 2 powi (bitlen p - bitlen q + 1) * 2 powi (bitlen q - 1)"
      by (simp flip: power_int_add)
    also have "\<dots> \<le> 2 powi (bitlen p - bitlen q + 1) * of_int q"
      by (rule mult_left_mono [OF qb(1)]) simp
    finally show ?thesis unfolding ax using qpos by (simp add: pos_divide_less_eq)
  qed
  have lo: "2 powi (bitlen p - bitlen q - 1) < \<bar>x\<bar>"
  proof -
    have "2 powi (bitlen p - bitlen q - 1) * of_int q
            < 2 powi (bitlen p - bitlen q - 1) * (2::rat) powi (bitlen q)"
      by (rule mult_strict_left_mono [OF qb(2)]) simp
    also have "\<dots> = 2 powi (bitlen p - 1)"
      by (simp flip: power_int_add)
    also have "\<dots> \<le> of_int p" by (rule pb)
    finally show ?thesis unfolding ax using qpos by (simp add: pos_less_divide_eq)
  qed
  show ?thesis
    using up lo unfolding ilog2_def pq by (auto simp: Let_def not_le)
qed

lemma ilog2_unique:
  assumes "2 powi e \<le> \<bar>x\<bar>" and "\<bar>x\<bar> < 2 powi (e + 1)"
  shows "ilog2 x = e"
proof -
  have "(0::rat) < 2 powi e" by simp
  with assms(1) have "0 < \<bar>x\<bar>" by linarith
  then have "x \<noteq> 0" by auto
  from ilog2_bounds [OF this]
  have b: "2 powi (ilog2 x) \<le> \<bar>x\<bar>" "\<bar>x\<bar> < 2 powi (ilog2 x + 1)" by auto
  have "(2::rat) powi e < 2 powi (ilog2 x + 1)" using assms(1) b(2) by linarith
  then have 1: "e < ilog2 x + 1" by (rule pow2_less_imp_less)
  have "(2::rat) powi (ilog2 x) < 2 powi (e + 1)" using assms(2) b(1) by linarith
  then have 2: "ilog2 x < e + 1" by (rule pow2_less_imp_less)
  show ?thesis using 1 2 by linarith
qed

lemma ilog2_minus [simp]: "ilog2 (- x) = ilog2 x"
  by (simp add: ilog2_def)

section \<open>Rounding to a double\<close>

lemma round_to_grid_zero [simp]: "round_to_grid 0 = 0"
  by (simp add: round_to_grid_def)

lemma round_to_grid_minus: "round_to_grid (- x) = - round_to_grid x"
  by (simp add: round_to_grid_def Let_def rne_minus)

lemma round_to_grid_nonneg: "0 \<le> x \<Longrightarrow> 0 \<le> round_to_grid x"
  by (simp add: round_to_grid_def Let_def rne_nonneg)

lemma round_to_grid_normal:
  assumes "2 powi e \<le> \<bar>x\<bar>" and "\<bar>x\<bar> < 2 powi (e + 1)" and "- 1022 \<le> e"
  shows "round_to_grid x = of_int (rne (x / 2 powi (e - 52))) * 2 powi (e - 52)"
  using ilog2_unique [OF assms(1,2)] assms(3) by (simp add: round_to_grid_def Let_def max_def)

lemma round_to_grid_mono_pos:
  assumes "0 < x" and "x \<le> y"
  shows "round_to_grid x \<le> round_to_grid y"
proof -
  define ex where "ex = max (ilog2 x) (- 1022)"
  define ey where "ey = max (ilog2 y) (- 1022)"
  have x0: "x \<noteq> 0" and y0: "y \<noteq> 0" using assms by auto
  have ax: "\<bar>x\<bar> = x" and ay: "\<bar>y\<bar> = y" using assms by auto
  note bnx = ilog2_bounds [OF x0, unfolded ax]
  note bny = ilog2_bounds [OF y0, unfolded ay]
  have rx: "round_to_grid x = of_int (rne (x / 2 powi (ex - 52))) * 2 powi (ex - 52)"
    by (simp add: round_to_grid_def ex_def Let_def)
  have ry: "round_to_grid y = of_int (rne (y / 2 powi (ey - 52))) * 2 powi (ey - 52)"
    by (simp add: round_to_grid_def ey_def Let_def)
  have "(2::rat) powi (ilog2 x) < 2 powi (ilog2 y + 1)" using bnx bny assms(2) by linarith
  then have "ilog2 x < ilog2 y + 1" by (rule pow2_less_imp_less)
  then have le: "ex \<le> ey" unfolding ex_def ey_def by auto
  show ?thesis
  proof (cases "ex = ey")
    case True
    have "x / 2 powi (ex - 52) \<le> y / 2 powi (ex - 52)"
      using assms(2) by (simp add: divide_right_mono)
    then have "rne (x / 2 powi (ex - 52)) \<le> rne (y / 2 powi (ex - 52))" by (rule rne_mono)
    then show ?thesis unfolding rx ry True [symmetric]
      by (intro mult_right_mono) auto
  next
    case False
    then have lt: "ex < ey" using le by simp
    then have eyy: "ey = ilog2 y" unfolding ex_def ey_def by auto
    have "x < 2 powi (ex + 1)"
    proof -
      have "ilog2 x + 1 \<le> ex + 1" unfolding ex_def by simp
      then have "(2::rat) powi (ilog2 x + 1) \<le> 2 powi (ex + 1)"
        by (intro power_int_increasing) auto
      then show ?thesis using bnx by linarith
    qed
    then have "x / 2 powi (ex - 52) \<le> 2 powi (ex + 1) / 2 powi (ex - 52)"
      by (intro divide_right_mono) auto
    also have "\<dots> = of_int (2 ^ 53)"
      by (simp flip: power_int_diff)
    finally have "rne (x / 2 powi (ex - 52)) \<le> rne (of_int (2 ^ 53))" by (rule rne_mono)
    then have "rne (x / 2 powi (ex - 52)) \<le> 2 ^ 53" unfolding rne_of_int .
    then have "(of_int (rne (x / 2 powi (ex - 52))) :: rat) \<le> of_int (2 ^ 53)"
      unfolding of_int_le_iff .
    then have "round_to_grid x \<le> of_int (2 ^ 53) * 2 powi (ex - 52)"
      unfolding rx by (intro mult_right_mono) auto
    also have "\<dots> = 2 powi (ex + 1)"
      using power_int_add [of "2::rat" 53 "ex - 52"] by (simp add: add.commute)
    also have "\<dots> \<le> 2 powi ey" using lt by (intro power_int_increasing) auto
    finally have up: "round_to_grid x \<le> 2 powi ey" .
    have "2 powi ey / 2 powi (ey - 52) \<le> y / 2 powi (ey - 52)"
      using bny unfolding eyy by (intro divide_right_mono) auto
    moreover have "2 powi ey / 2 powi (ey - 52) = (of_int (2 ^ 52) :: rat)"
      by (simp flip: power_int_diff)
    ultimately have "rne (of_int (2 ^ 52)) \<le> rne (y / 2 powi (ey - 52))"
      by (intro rne_mono) simp
    then have "2 ^ 52 \<le> rne (y / 2 powi (ey - 52))" unfolding rne_of_int .
    then have "(of_int (2 ^ 52) :: rat) \<le> of_int (rne (y / 2 powi (ey - 52)))"
      unfolding of_int_le_iff .
    then have "of_int (2 ^ 52) * 2 powi (ey - 52) \<le> round_to_grid y"
      unfolding ry by (intro mult_right_mono) auto
    moreover have "of_int (2 ^ 52) * 2 powi (ey - 52) = (2::rat) powi ey"
      using power_int_add [of "2::rat" 52 "ey - 52"] by simp
    ultimately show ?thesis using up by linarith
  qed
qed

lemma round_to_grid_mono:
  assumes "x \<le> y"
  shows "round_to_grid x \<le> round_to_grid y"
proof -
  consider "0 < x" | "y < 0" | "x \<le> 0" "0 \<le> y" by linarith
  then show ?thesis
  proof cases
    case 1
    then show ?thesis using assms by (rule round_to_grid_mono_pos)
  next
    case 2
    then have "0 < - y" "- y \<le> - x" using assms by auto
    then have "round_to_grid (- y) \<le> round_to_grid (- x)" by (rule round_to_grid_mono_pos)
    then show ?thesis by (simp add: round_to_grid_minus)
  next
    case 3
    have "0 \<le> round_to_grid y" using 3(2) by (rule round_to_grid_nonneg)
    moreover have "0 \<le> round_to_grid (- x)" using 3(1) by (intro round_to_grid_nonneg) simp
    ultimately show ?thesis by (simp add: round_to_grid_minus)
  qed
qed

lemma fl_Fin_iff: "fl x = Fin y \<longleftrightarrow> round_to_grid x = y \<and> - huge < y \<and> y < huge"
  by (auto simp: fl_def Let_def)

lemma fl_zero [simp]: "fl 0 = Fin 0"
  by (simp add: fl_Fin_iff huge_def)

text \<open>
  Rounding is monotone, so a value between two doubles rounds to a double between them.
\<close>

lemma fl_between:
  assumes "fl lo = Fin lo" and "fl hi = Fin hi" and "lo \<le> x" and "x \<le> hi"
  shows "\<exists>y. fl x = Fin y \<and> lo \<le> y \<and> y \<le> hi"
proof -
  have l: "round_to_grid lo = lo" "- huge < lo" using assms(1) by (simp_all add: fl_Fin_iff)
  have h: "round_to_grid hi = hi" "hi < huge" using assms(2) by (simp_all add: fl_Fin_iff)
  have "lo \<le> round_to_grid x" using round_to_grid_mono [OF assms(3)] l(1) by simp
  moreover have "round_to_grid x \<le> hi" using round_to_grid_mono [OF assms(4)] h(1) by simp
  ultimately show ?thesis using l(2) h(2) by (simp add: fl_Fin_iff)
qed

text \<open>
  Evaluating \<open>fl\<close> at a number: the binary exponent \<open>e\<close> is given, and the conditions are
  comparisons of numerals.
\<close>

lemma fl_normal:
  assumes "2 powi e \<le> \<bar>x\<bar>" and "\<bar>x\<bar> < 2 powi (e + 1)" and "- 1022 \<le> e"
    and "y = of_int (rne (x / 2 powi (e - 52))) * 2 powi (e - 52)"
    and "\<bar>y\<bar> < huge"
  shows "fl x = Fin y"
  using round_to_grid_normal [OF assms(1-3)] assms(4,5)
  by (auto simp add: fl_Fin_iff)

lemma floor_rat_numeral:
  "\<lfloor>numeral a / numeral b :: rat\<rfloor> = numeral a div numeral b"
  "\<lfloor>- (numeral a / numeral b) :: rat\<rfloor> = - numeral a div numeral b"
  "\<lfloor>1 / numeral b :: rat\<rfloor> = 1 div numeral b"
  "\<lfloor>- (1 / numeral b) :: rat\<rfloor> = - 1 div numeral b"
  using floor_divide_of_int_eq [of "numeral a" "numeral b", where ?'a = rat]
    floor_divide_of_int_eq [of "- numeral a" "numeral b", where ?'a = rat]
    floor_divide_of_int_eq [of 1 "numeral b", where ?'a = rat]
    floor_divide_of_int_eq [of "- 1" "numeral b", where ?'a = rat]
  by simp_all

lemmas fl_eval = rne_def Let_def huge_def floor_rat_numeral

text \<open>Integers of at most 53 bits are doubles.\<close>

lemma fl_of_int_exact:
  assumes "\<bar>n\<bar> \<le> 2 ^ 53"
  shows "fl (of_int n) = Fin (of_int n)"
proof (cases "n = 0")
  case True
  then show ?thesis by simp
next
  case False
  define x :: rat where "x = of_int n"
  have x0: "x \<noteq> 0" using False by (simp add: x_def)
  define e where "e = ilog2 x"
  have b: "2 powi e \<le> \<bar>x\<bar>" "\<bar>x\<bar> < 2 powi (e + 1)" using ilog2_bounds [OF x0] by (simp_all add: e_def)
  have "1 \<le> \<bar>n\<bar>" using False by simp
  then have "(1::rat) \<le> \<bar>x\<bar>" unfolding x_def by (metis of_int_1 of_int_abs of_int_le_iff)
  then have "(2::rat) powi 0 < 2 powi (e + 1)" using b(2) by simp
  then have e0: "0 \<le> e" using pow2_less_imp_less by fastforce
  have "\<bar>x\<bar> \<le> 2 ^ 53" using assms unfolding x_def
    by (metis of_int_abs of_int_le_iff of_int_numeral of_int_power)
  then have "(2::rat) powi e < 2 powi 54" using b(1) by simp
  then have e53: "e \<le> 53" using pow2_less_imp_less by fastforce
  show ?thesis
  proof (cases "e \<le> 52")
    case True
    have q: "(2::rat) powi (e - 52) = 1 / 2 ^ nat (52 - e)"
      using True by (simp add: power_int_def inverse_eq_divide power_one_over)
    have eq: "x / 2 powi (e - 52) = of_int (n * 2 ^ nat (52 - e))"
      unfolding q x_def by simp
    have "rne (x / 2 powi (e - 52)) = n * 2 ^ nat (52 - e)"
      unfolding eq by (rule rne_of_int)
    then have y: "x = of_int (rne (x / 2 powi (e - 52))) * 2 powi (e - 52)"
      unfolding q x_def by simp
    have "\<bar>x\<bar> < huge" using \<open>\<bar>x\<bar> \<le> 2 ^ 53\<close> by (simp add: huge_def)
    show ?thesis unfolding x_def [symmetric]
      by (rule fl_normal [OF b _ y \<open>\<bar>x\<bar> < huge\<close>]) (use e0 in simp)
  next
    case False
    then have e: "e = 53" using e53 by simp
    then have "\<bar>x\<bar> = 2 ^ 53" using b(1) \<open>\<bar>x\<bar> \<le> 2 ^ 53\<close> by simp
    then have "x = 2 ^ 53 \<or> x = - (2 ^ 53)" by (simp add: abs_if split: if_splits) 
    then show ?thesis
    proof
      assume "x = 2 ^ 53"
      moreover have "fl (2 ^ 53) = Fin (2 ^ 53)"
        by (rule fl_normal [where e = 53]) (simp_all add: fl_eval)
      ultimately show ?thesis by (simp add: x_def)
    next
      assume "x = - (2 ^ 53)"
      moreover have "fl (- (2 ^ 53)) = Fin (- (2 ^ 53))"
        by (rule fl_normal [where e = 53]) (simp_all add: fl_eval)
      ultimately show ?thesis by (simp add: x_def)
    qed
  qed
qed

section \<open>Ranges of the float operations\<close>

lemma in_rangeE:
  assumes "in_range lo hi x"
  obtains y where "x = Fin y" and "lo \<le> y" and "y \<le> hi"
  using assms by (cases x) auto

lemma in_range_fl:
  assumes "fl lo = Fin lo" and "fl hi = Fin hi" and "lo \<le> x" and "x \<le> hi"
  shows "in_range lo hi (fl x)"
  using fl_between [OF assms] by auto

lemma in_range_weaken: "in_range lo hi x \<Longrightarrow> lo' \<le> lo \<Longrightarrow> hi \<le> hi' \<Longrightarrow> in_range lo' hi' x"
  by (auto elim!: in_rangeE)

lemma in_range_fle:
  assumes "in_range lo hi x"
  shows "fle (Fin lo) x" and "fle x (Fin hi)"
  using assms by (auto elim!: in_rangeE)

lemma fadd_in_range:
  assumes "in_range la ha x" and "in_range lb hb y"
    and "fl lo = Fin lo" and "fl hi = Fin hi" and "lo \<le> la + lb" and "ha + hb \<le> hi"
  shows "in_range lo hi (fadd x y)"
proof -
  from assms(1) obtain a where a: "x = Fin a" "la \<le> a" "a \<le> ha" by (rule in_rangeE)
  from assms(2) obtain b where b: "y = Fin b" "lb \<le> b" "b \<le> hb" by (rule in_rangeE)
  have "in_range lo hi (fl (a + b))"
    by (rule in_range_fl [OF assms(3,4)]) (use a b assms(5,6) in linarith)+
  then show ?thesis by (simp add: a b)
qed

lemma fsub_in_range:
  assumes "in_range la ha x" and "in_range lb hb y"
    and "fl lo = Fin lo" and "fl hi = Fin hi" and "lo \<le> la - hb" and "ha - lb \<le> hi"
  shows "in_range lo hi (fsub x y)"
proof -
  from assms(1) obtain a where a: "x = Fin a" "la \<le> a" "a \<le> ha" by (rule in_rangeE)
  from assms(2) obtain b where b: "y = Fin b" "lb \<le> b" "b \<le> hb" by (rule in_rangeE)
  have "in_range lo hi (fl (a + - b))"
    by (rule in_range_fl [OF assms(3,4)]) (use a b assms(5,6) in linarith)+
  then show ?thesis by (simp add: a b fsub_def)
qed

lemma fmul_in_range_nonneg:
  assumes "in_range la ha x" and "in_range lb hb y" and "0 \<le> la" and "0 \<le> lb"
    and "fl lo = Fin lo" and "fl hi = Fin hi" and "lo \<le> la * lb" and "ha * hb \<le> hi"
  shows "in_range lo hi (fmul x y)"
proof -
  from assms(1) obtain a where a: "x = Fin a" "la \<le> a" "a \<le> ha" by (rule in_rangeE)
  from assms(2) obtain b where b: "y = Fin b" "lb \<le> b" "b \<le> hb" by (rule in_rangeE)
  have "la * lb \<le> a * b" using a b assms(3,4) by (intro mult_mono) auto
  moreover have "a * b \<le> ha * hb" using a b assms(3,4) by (intro mult_mono) auto
  ultimately have "in_range lo hi (fl (a * b))"
    using assms(7,8) by (intro in_range_fl [OF assms(5,6)]) linarith+
  then show ?thesis by (simp add: a b)
qed

lemma py_round_in_range:
  assumes "in_range a b x" and "fl lo = Fin lo" and "fl hi = Fin hi"
    and "lo \<le> of_int (rne (a * 10 ^ n)) / 10 ^ n" and "of_int (rne (b * 10 ^ n)) / 10 ^ n \<le> hi"
  shows "in_range lo hi (py_round n x)"
proof -
  from assms(1) obtain v where v: "x = Fin v" "a \<le> v" "v \<le> b" by (rule in_rangeE)
  have "rne (a * 10 ^ n) \<le> rne (v * 10 ^ n)" using v(2) by (intro rne_mono) simp
  then have 1: "(of_int (rne (a * 10 ^ n)) :: rat) / 10 ^ n \<le> of_int (rne (v * 10 ^ n)) / 10 ^ n"
    by (intro divide_right_mono) simp_all
  have "rne (v * 10 ^ n) \<le> rne (b * 10 ^ n)" using v(3) by (intro rne_mono) simp
  then have 2: "(of_int (rne (v * 10 ^ n)) :: rat) / 10 ^ n \<le> of_int (rne (b * 10 ^ n)) / 10 ^ n"
    by (intro divide_right_mono) simp_all
  have "in_range lo hi (fl (of_int (rne (v * 10 ^ n)) / 10 ^ n))"
    by (rule in_range_fl [OF assms(2,3)]) (use 1 2 assms(4,5) in linarith)+
  then show ?thesis by (simp add: v)
qed

section \<open>Ranges of the draws\<close>

lemma py_random_in_range: "in_range 0 1 (py_random raw)"
proof -
  have "raw mod 2 ^ 53 < 2 ^ 53" by simp
  then have "(of_nat (raw mod 2 ^ 53) :: rat) \<le> of_nat (2 ^ 53)"
    unfolding of_nat_le_iff by simp
  then show ?thesis by (simp add: py_random_def divide_le_eq)
qed

lemma uniform_in_range:
  assumes "fl a = Fin a" and "fl b = Fin b" and "fl (b - a) = Fin d" and "fl d = Fin d"
    and "0 \<le> d" and "a + d \<le> b"
  shows "in_range a b (uniform (Fin a) (Fin b) raw)"
proof -
  have width: "fsub (Fin b) (Fin a) = Fin d" using assms(3) by (simp add: fsub_def)
  have t: "in_range 0 d (fmul (Fin d) (py_random raw))"
    by (rule fmul_in_range_nonneg [OF _ py_random_in_range, of d d])
       (use assms(4,5) in simp_all)
  have "in_range a b (fadd (Fin a) (fmul (Fin d) (py_random raw)))"
    by (rule fadd_in_range [of a a "Fin a", OF _ t assms(1,2)]) (use assms(6) in simp_all)
  then show ?thesis by (simp add: uniform_def width)
qed

section \<open>Doubles that occur in the program\<close>

lemma fl_1_10: "fl (1 / 10) = Fin (3602879701896397 / 36028797018963968)"
  by (rule fl_normal [where e = "- 4"]) (simp_all add: fl_eval)

lemma fl_17_20: "fl (17 / 20) = Fin (7656119366529843 / 9007199254740992)"
  by (rule fl_normal [where e = "- 1"]) (simp_all add: fl_eval)



lemma fl_m1_10: "fl (- (1 / 10)) = Fin (- (3602879701896397 / 36028797018963968))"
  by (rule fl_normal [where e = "- 4"]) (simp_all add: fl_eval)

lemma fl_1_5: "fl (1 / 5) = Fin (3602879701896397 / 18014398509481984)"
  by (rule fl_normal [where e = "- 3"]) (simp_all add: fl_eval)

lemma fl_m1_5: "fl (- (1 / 5)) = Fin (- (3602879701896397 / 18014398509481984))"
  by (rule fl_normal [where e = "- 3"]) (simp_all add: fl_eval)

lemma fl_1_50: "fl (1 / 50) = Fin (5764607523034235 / 288230376151711744)"
  by (rule fl_normal [where e = "- 6"]) (simp_all add: fl_eval)

lemma fl_m1_50: "fl (- (1 / 50)) = Fin (- (5764607523034235 / 288230376151711744))"
  by (rule fl_normal [where e = "- 6"]) (simp_all add: fl_eval)

lemma fl_c1_10: "fl (3602879701896397 / 36028797018963968) = Fin (3602879701896397 / 36028797018963968)"
  by (rule fl_normal [where e = "- 4"]) (simp_all add: fl_eval)

lemma fl_mc1_10: "fl (- (3602879701896397 / 36028797018963968)) = Fin (- (3602879701896397 / 36028797018963968))"
  by (rule fl_normal [where e = "- 4"]) (simp_all add: fl_eval)

lemma fl_c17_20: "fl (7656119366529843 / 9007199254740992) = Fin (7656119366529843 / 9007199254740992)"
  by (rule fl_normal [where e = "- 1"]) (simp_all add: fl_eval)

lemma fl_c17_20_m1: "fl (- (1351079888211149 / 9007199254740992)) = Fin (- (1351079888211149 / 9007199254740992))"
  by (rule fl_normal [where e = "- 3"]) (simp_all add: fl_eval)

lemma fl_c1_20: "fl (3602879701896397 / 72057594037927936) = Fin (3602879701896397 / 72057594037927936)"
  by (rule fl_normal [where e = "- 5"]) (simp_all add: fl_eval)

lemma fl_mc1_20: "fl (- (3602879701896397 / 72057594037927936)) = Fin (- (3602879701896397 / 72057594037927936))"
  by (rule fl_normal [where e = "- 5"]) (simp_all add: fl_eval)

lemma fl_c1_5: "fl (3602879701896397 / 18014398509481984) = Fin (3602879701896397 / 18014398509481984)"
  by (rule fl_normal [where e = "- 3"]) (simp_all add: fl_eval)

lemma fl_mc1_5: "fl (- (3602879701896397 / 18014398509481984)) = Fin (- (3602879701896397 / 18014398509481984))"
  by (rule fl_normal [where e = "- 3"]) (simp_all add: fl_eval)


lemma fl_c1_50: "fl (5764607523034235 / 288230376151711744) = Fin (5764607523034235 / 288230376151711744)"
  by (rule fl_normal [where e = "- 6"]) (simp_all add: fl_eval)

lemma fl_mc1_50: "fl (- (5764607523034235 / 288230376151711744)) = Fin (- (5764607523034235 / 288230376151711744))"
  by (rule fl_normal [where e = "- 6"]) (simp_all add: fl_eval)

lemma fl_1_2: "fl (1 / 2) = Fin (1 / 2)"
  by (rule fl_normal [where e = "- 1"]) (simp_all add: fl_eval)

lemma fl_m1_2: "fl (- (1 / 2)) = Fin (- (1 / 2))"
  by (rule fl_normal [where e = "- 1"]) (simp_all add: fl_eval)

lemma fl_3_2: "fl (3 / 2) = Fin (3 / 2)"
  by (rule fl_normal [where e = "0"]) (simp_all add: fl_eval)

lemma fl_7_2: "fl (7 / 2) = Fin (7 / 2)"
  by (rule fl_normal [where e = "1"]) (simp_all add: fl_eval)

lemma fl_51_2: "fl (51 / 2) = Fin (51 / 2)"
  by (rule fl_normal [where e = "4"]) (simp_all add: fl_eval)

lemma fl_53_2: "fl (53 / 2) = Fin (53 / 2)"
  by (rule fl_normal [where e = "4"]) (simp_all add: fl_eval)

lemma fl_1_4: "fl (1 / 4) = Fin (1 / 4)"
  by (rule fl_normal [where e = "- 2"]) (simp_all add: fl_eval)

lemma fl_int [simp]:
  "fl 1 = Fin 1" "fl 2 = Fin 2" "fl 3 = Fin 3" "fl 4 = Fin 4" "fl 5 = Fin 5" "fl 6 = Fin 6"
  "fl 8 = Fin 8" "fl 9 = Fin 9" "fl 30 = Fin 30" "fl 100 = Fin 100" "fl (- 1) = Fin (- 1)"
  "fl (- 2) = Fin (- 2)"
  using fl_of_int_exact [of 1] fl_of_int_exact [of 2] fl_of_int_exact [of 3]
    fl_of_int_exact [of 4] fl_of_int_exact [of 5] fl_of_int_exact [of 6] fl_of_int_exact [of 8]
    fl_of_int_exact [of 9] fl_of_int_exact [of 30] fl_of_int_exact [of 100]
    fl_of_int_exact [of "- 1"] fl_of_int_exact [of "- 2"]
  by simp_all

section \<open>Sequencing and draws\<close>

lemma and_then_Inr [simp]: "and_then (Inr x) f = f x"
  by (simp add: and_then_def)

lemma and_then_Inl [simp]: "and_then (Inl e) f = Inl e"
  by (simp add: and_then_def)

lemma randint_ok: "a \<le> b \<Longrightarrow> randint a b raw = Inr (a + int (raw mod nat (b - a + 1)))"
  by (simp add: randint_def randbelow_def)

lemma randint_range:
  assumes "a \<le> b"
  shows "\<exists>v. randint a b raw = Inr v \<and> a \<le> v \<and> v \<le> b"
proof -
  have "0 < nat (b - a + 1)" using assms by simp
  then have "raw mod nat (b - a + 1) < nat (b - a + 1)" by (rule mod_less_divisor)
  then have "int (raw mod nat (b - a + 1)) \<le> b - a" by linarith
  then show ?thesis using assms by (simp add: randint_ok)
qed

lemma choice_ok: "seq \<noteq> [] \<Longrightarrow> \<exists>v. choice seq raw = Inr v \<and> v \<in> set seq"
  by (simp add: choice_def randbelow_def)

lemma hist_loop_ok:
  "\<exists>rows. hist_loop rng k y s dates = Inr rows \<and> length rows = length dates"
proof (induction dates arbitrary: k y s)
  case Nil
  show ?case by simp
next
  case (Cons date dates)
  obtain v where v: "randint (- 2) 2 (rng (Suc k)) = Inr v"
    using randint_range [of "- 2" 2] by force
  define y' where "y' = fadd y (uniform (lit (- 1 / 20)) (lit (1 / 20)) (rng k))"
  obtain rows where "hist_loop rng (k + 2) y' (s + v) dates = Inr rows" "length rows = length dates"
    using Cons.IH by blast
  then show ?case by (simp add: v Let_def y'_def)
qed


section \<open>One generated bond\<close>

lemma float_of_int_small: "\<bar>n\<bar> \<le> 2 ^ 53 \<Longrightarrow> float_of_int n = Inr (Fin (of_int n))"
  by (simp add: float_of_int_def fl_of_int_exact)

lemma choice_nonempty:
  "seq \<noteq> [] \<Longrightarrow> choice seq raw = Inr (seq ! (raw mod length seq))"
  by (simp add: choice_def randbelow_def)

lemma lit_values:
  "lit 2 = Fin 2"
  "lit (1 / 2) = Fin (1 / 2)"
  "lit (- (1 / 2)) = Fin (- (1 / 2))"
  "lit (3 / 2) = Fin (3 / 2)"
  "lit (7 / 2) = Fin (7 / 2)"
  "lit (53 / 2) = Fin (53 / 2)"
  "lit (1 / 10) = Fin (3602879701896397 / 36028797018963968)"
  "lit (- (1 / 10)) = Fin (- (3602879701896397 / 36028797018963968))"
  "lit (17 / 20) = Fin (7656119366529843 / 9007199254740992)"
  "lit (- (1 / 5)) = Fin (- (3602879701896397 / 18014398509481984))"
  using fl_1_2 fl_m1_2 fl_3_2 fl_7_2 fl_53_2 fl_1_10 fl_m1_10 fl_17_20 fl_m1_5
  by (simp_all add: lit_def)

text \<open>The yield of a bond of \<open>m\<close> years, before and after rounding.\<close>

lemma base_yield_range:
  assumes "1 \<le> m" and "m \<le> 30"
  shows "in_range 2 6 (fadd (lit 2) (fmul (Fin (of_int m)) (lit (1 / 10))))"
proof -
  have m: "in_range 1 30 (Fin (of_int m))" using assms by simp
  have c: "in_range (3602879701896397 / 36028797018963968) (3602879701896397 / 36028797018963968) (lit (1 / 10))"
    by (simp add: lit_values)
  have "in_range 0 4 (fmul (Fin (of_int m)) (lit (1 / 10)))"
    by (rule fmul_in_range_nonneg [OF m c]) simp_all
  then show ?thesis
    by (rule fadd_in_range [of 2 2 "lit 2", rotated]) (simp_all add: lit_values)
qed

lemma yield_noise_range:
  "in_range (- 1 / 2) (1 / 2) (uniform (lit (- 1 / 2)) (lit (1 / 2)) raw)"
  using uniform_in_range [of "- (1 / 2)" "1 / 2" 1 raw]
  by (simp add: lit_values fl_1_2 fl_m1_2)

lemma yield_value_range:
  assumes "in_range 2 8 base"
  shows "in_range 1 9 (py_round 2 (fadd base (uniform (lit (- 1 / 2)) (lit (1 / 2)) raw)))"
proof -
  have "in_range 1 9 (fadd base (uniform (lit (- 1 / 2)) (lit (1 / 2)) raw))"
    by (rule fadd_in_range [OF assms yield_noise_range]) simp_all
  then show ?thesis
    by (rule py_round_in_range) (simp_all add: rne_def)
qed

text \<open>The duration of a bond of \<open>m\<close> years.\<close>

lemma duration_noise_range: "in_range (- 1) 1 (uniform (Fin (- 1)) (Fin 1) raw)"
  by (rule uniform_in_range [where d = 2]) simp_all

lemma duration_range:
  assumes "1 \<le> m" and "m \<le> 30"
  shows "in_range (- (3602879701896397 / 18014398509481984)) (53 / 2)
           (py_round 1 (fadd (fmul (Fin (of_int m)) (lit (17 / 20))) (uniform (Fin (- 1)) (Fin 1) raw)))"
proof -
  have m: "in_range 1 30 (Fin (of_int m))" using assms by simp
  have c: "in_range (7656119366529843 / 9007199254740992) (7656119366529843 / 9007199254740992) (lit (17 / 20))"
    by (simp add: lit_values)
  have "in_range (7656119366529843 / 9007199254740992) (51 / 2) (fmul (Fin (of_int m)) (lit (17 / 20)))"
    by (rule fmul_in_range_nonneg [OF m c]) (simp_all add: fl_c17_20 fl_51_2)
  then have "in_range ((7656119366529843 / 9007199254740992) - 1) (53 / 2)
               (fadd (fmul (Fin (of_int m)) (lit (17 / 20))) (uniform (Fin (- 1)) (Fin 1) raw))"
    by (rule fadd_in_range [OF _ duration_noise_range]) (simp_all add: fl_c17_20_m1 fl_53_2)
  then show ?thesis
    by (rule py_round_in_range) (simp_all add: fl_mc1_5 fl_53_2 fl_eval)
qed


text \<open>
  The loop body never raises, and its result is made of the draws as follows; \<open>years_drawn\<close>
  is the number of years that \<open>randint(1, 30)\<close> returns in the iteration.
\<close>

lemma years_drawn_range: "1 \<le> 1 + int (raw mod 30)" "1 + int (raw mod 30) \<le> 30"
proof -
  have "raw mod 30 < 30" by simp
  then show "1 + int (raw mod 30) \<le> 30" by linarith
qed simp

lemma gen_bond_result:
  fixes now :: datetime and rng :: rng and i :: int
  defines "m \<equiv> 1 + int (rng (11 * nat i) mod 30)"
  shows "\<exists>b. gen_bond now rng i = Inr b
           \<and> maturity b = strftime_ymd (plus_days now (365 * m))
           \<and> sector b \<in> set SECTORS \<and> rating b \<in> set RATINGS \<and> currency b \<in> set CURRENCIES
           \<and> 10 \<le> spread b \<and> spread b \<le> 300
           \<and> yield_value b =
               py_round 2
                 (fadd (if contains ''BBB'' (rating b)
                        then fadd (fadd (lit 2) (fmul (Fin (of_int m)) (lit (1 / 10)))) (lit (3 / 2))
                        else if contains ''A'' (rating b)
                        then fadd (fadd (lit 2) (fmul (Fin (of_int m)) (lit (1 / 10)))) (lit (1 / 2))
                        else fadd (lit 2) (fmul (Fin (of_int m)) (lit (1 / 10))))
                       (uniform (lit (- 1 / 2)) (lit (1 / 2)) (rng (11 * nat i + 3))))
           \<and> duration b =
               py_round 1 (fadd (fmul (Fin (of_int m)) (lit (17 / 20)))
                                (uniform (Fin (- 1)) (Fin 1) (rng (11 * nat i + 7))))"
proof -
  have m: "randint 1 30 (rng (11 * nat i)) = Inr m"
    by (simp add: randint_ok m_def)
  have mr: "1 \<le> m" "m \<le> 30" using years_drawn_range by (simp_all add: m_def)
  obtain s where s: "randint 10 300 (rng (11 * nat i + 6)) = Inr s" "10 \<le> s" "s \<le> 300"
    using randint_range [of 10 300] by force
  obtain sec where sec: "choice SECTORS (rng (11 * nat i + 1)) = Inr sec" "sec \<in> set SECTORS"
    using choice_ok [of SECTORS] by (force simp: SECTORS_def)
  obtain rat where rat: "choice RATINGS (rng (11 * nat i + 2)) = Inr rat" "rat \<in> set RATINGS"
    using choice_ok [of RATINGS] by (force simp: RATINGS_def)
  obtain cur where cur: "choice CURRENCIES (rng (11 * nat i + 8)) = Inr cur" "cur \<in> set CURRENCIES"
    using choice_ok [of CURRENCIES] by (force simp: CURRENCIES_def)
  obtain size where size: "choice ISSUE_SIZES (rng (11 * nat i + 10)) = Inr size"
    using choice_ok [of ISSUE_SIZES] by (force simp: ISSUE_SIZES_def)
  have years: "float_of_int m = Inr (Fin (of_int m))"
    using mr by (intro float_of_int_small) simp
  show ?thesis
    unfolding gen_bond_def Let_def m s(1) sec(1) rat(1) cur(1) size years and_then_Inr
    apply (rule exI)
    apply (rule conjI, rule refl)
    apply (simp add: s(2,3) sec(2) rat(2) cur(2))
    done
qed

text \<open>The ranges of the fields of one bond.\<close>

lemma gen_bond_ranges:
  "\<exists>b. gen_bond now rng i = Inr b
       \<and> in_range 1 9 (yield_value b) \<and> 10 \<le> spread b \<and> spread b \<le> 300
       \<and> in_range (- (3602879701896397 / 18014398509481984)) (53 / 2) (duration b)
       \<and> rating b \<in> set RATINGS \<and> sector b \<in> set SECTORS \<and> currency b \<in> set CURRENCIES"
proof -
  define m where "m = 1 + int (rng (11 * nat i) mod 30)"
  have mr: "1 \<le> m" "m \<le> 30" using years_drawn_range by (simp_all add: m_def)
  from gen_bond_result [of now rng i, folded m_def]
  obtain b where b: "gen_bond now rng i = Inr b"
    "sector b \<in> set SECTORS" "rating b \<in> set RATINGS" "currency b \<in> set CURRENCIES"
    "10 \<le> spread b" "spread b \<le> 300"
    and y: "yield_value b =
               py_round 2
                 (fadd (if contains ''BBB'' (rating b)
                        then fadd (fadd (lit 2) (fmul (Fin (of_int m)) (lit (1 / 10)))) (lit (3 / 2))
                        else if contains ''A'' (rating b)
                        then fadd (fadd (lit 2) (fmul (Fin (of_int m)) (lit (1 / 10)))) (lit (1 / 2))
                        else fadd (lit 2) (fmul (Fin (of_int m)) (lit (1 / 10))))
                       (uniform (lit (- 1 / 2)) (lit (1 / 2)) (rng (11 * nat i + 3))))"
    and d: "duration b =
               py_round 1 (fadd (fmul (Fin (of_int m)) (lit (17 / 20)))
                                (uniform (Fin (- 1)) (Fin 1) (rng (11 * nat i + 7))))"
    by blast
  note base = base_yield_range [OF mr]
  have hi: "in_range 2 8 (fadd (fadd (lit 2) (fmul (Fin (of_int m)) (lit (1 / 10)))) (lit (3 / 2)))"
    by (rule fadd_in_range [OF base, of "3 / 2" "3 / 2"]) (simp_all add: lit_values)
  have mid: "in_range 2 8 (fadd (fadd (lit 2) (fmul (Fin (of_int m)) (lit (1 / 10)))) (lit (1 / 2)))"
    by (rule fadd_in_range [OF base, of "1 / 2" "1 / 2"]) (simp_all add: lit_values)
  have low: "in_range 2 8 (fadd (lit 2) (fmul (Fin (of_int m)) (lit (1 / 10))))"
    by (rule in_range_weaken [OF base]) simp_all
  have "in_range 1 9 (yield_value b)"
    unfolding y by (rule yield_value_range) (simp add: hi mid low)
  moreover have "in_range (- (3602879701896397 / 18014398509481984)) (53 / 2) (duration b)"
    unfolding d by (rule duration_range [OF mr])
  ultimately show ?thesis using b by blast
qed

section \<open>The loop of \<open>generate_bonds\<close>\<close>

lemma bonds_loop_all:
  assumes "\<And>i. \<exists>b. gen_bond now rng i = Inr b \<and> P i b"
  shows "\<exists>bs. bonds_loop now rng idx = Inr bs \<and> length bs = length idx
              \<and> (\<forall>j < length idx. P (idx ! j) (bs ! j))"
proof (induction idx)
  case Nil
  show ?case by simp
next
  case (Cons i idx)
  from assms obtain b where b: "gen_bond now rng i = Inr b" "P i b" by blast
  from Cons.IH obtain bs where bs: "bonds_loop now rng idx = Inr bs" "length bs = length idx"
    "\<forall>j < length idx. P (idx ! j) (bs ! j)" by blast
  have "\<forall>j < length (i # idx). P ((i # idx) ! j) ((b # bs) ! j)"
    using b(2) bs(3) by (auto simp: nth_Cons split: nat.splits)
  then show ?case using b(1) bs(1,2) by simp
qed

lemma py_range_length [simp]: "length (py_range count) = nat count"
  by (simp add: py_range_def)

lemma py_range_nth: "j < nat count \<Longrightarrow> py_range count ! j = int j"
  by (simp add: py_range_def)

lemma generate_bonds_all:
  assumes "\<And>i. \<exists>b. gen_bond now rng i = Inr b \<and> P i b"
  shows "\<exists>bs. generate_bonds now rng count = Inr bs \<and> length bs = nat count
              \<and> (\<forall>j < nat count. P (int j) (bs ! j))"
  using bonds_loop_all [of now rng P "py_range count", OF assms]
  by (auto simp: generate_bonds_def py_range_nth)

section \<open>The batch of bonds\<close>

text \<open>
  Claim C1, as amended. For every \<open>count \<ge> 0\<close>, \<open>generate_bonds\<close> raises nothing and returns
  exactly \<open>count\<close> bonds; every bond has a yield of at least \<open>0\<close>, a spread from \<open>10\<close> to
  \<open>300\<close>, a duration from \<open>-0.2\<close> to \<open>26.5\<close> (the bounds \<open>0.85 * 1 - 1\<close> and \<open>0.85 * 30 + 1\<close>
  rounded to one decimal, as the duration is), and a rating, a sector and a currency of the
  three fixed lists.
\<close>

theorem generate_bonds_count_and_ranges:
  "0 \<le> count \<Longrightarrow>
     \<exists>bs. generate_bonds now rng count = Inr bs \<and> int (length bs) = count
        \<and> (\<forall>b \<in> set bs.
              fle (Fin 0) (yield_value b) \<and> 10 \<le> spread b \<and> spread b \<le> 300
            \<and> fle (lit (- 1 / 5)) (duration b) \<and> fle (duration b) (lit (53 / 2))
            \<and> rating b \<in> set RATINGS \<and> sector b \<in> set SECTORS \<and> currency b \<in> set CURRENCIES)"
proof -
  assume count: "0 \<le> count"
  let ?P = "\<lambda>(i::int) b.
      in_range 1 9 (yield_value b) \<and> 10 \<le> spread b \<and> spread b \<le> 300
    \<and> in_range (- (3602879701896397 / 18014398509481984)) (53 / 2) (duration b)
    \<and> rating b \<in> set RATINGS \<and> sector b \<in> set SECTORS \<and> currency b \<in> set CURRENCIES"
  from generate_bonds_all [of now rng ?P count, OF gen_bond_ranges]
  obtain bs where bs: "generate_bonds now rng count = Inr bs" "length bs = nat count"
    "\<forall>j < nat count. ?P (int j) (bs ! j)" by blast
  have "fle (Fin 0) (yield_value b) \<and> 10 \<le> spread b \<and> spread b \<le> 300
      \<and> fle (lit (- 1 / 5)) (duration b) \<and> fle (duration b) (lit (53 / 2))
      \<and> rating b \<in> set RATINGS \<and> sector b \<in> set SECTORS \<and> currency b \<in> set CURRENCIES"
    if "b \<in> set bs" for b
  proof -
    from that obtain j where "j < nat count" "b = bs ! j"
      using bs(2) by (auto simp: in_set_conv_nth)
    with bs(3) have p: "?P (int j) b" by simp
    from p have "in_range 1 9 (yield_value b)" by simp
    then have "in_range 0 9 (yield_value b)" by (rule in_range_weaken) simp_all
    then have "fle (Fin 0) (yield_value b)" by (rule in_range_fle)
    moreover from p have "in_range (- (3602879701896397 / 18014398509481984)) (53 / 2) (duration b)" by simp
    then have "fle (lit (- 1 / 5)) (duration b)" "fle (duration b) (lit (53 / 2))"
      using in_range_fle [of "- (3602879701896397 / 18014398509481984)" "53 / 2" "duration b"] by (simp_all add: lit_values)
    ultimately show ?thesis using p by simp
  qed
  then show ?thesis using bs(1,2) count by auto
qed

theorem generate_bonds_count_and_ranges_witness:
  "\<exists>bs. generate_bonds 63844811112123456 (constant_rng 0) 3 = Inr bs \<and> length bs = 3
      \<and> (\<forall>b \<in> set bs.
            fle (Fin 0) (yield_value b) \<and> 10 \<le> spread b \<and> spread b \<le> 300
          \<and> fle (lit (- 1 / 5)) (duration b) \<and> fle (duration b) (lit (53 / 2))
          \<and> rating b \<in> set RATINGS \<and> sector b \<in> set SECTORS \<and> currency b \<in> set CURRENCIES)"
  using generate_bonds_count_and_ranges [of 3 63844811112123456 "constant_rng 0"] by simp


lemma generate_bonds_single:
  "gen_bond now rng 0 = Inr b \<Longrightarrow> generate_bonds now rng 1 = Inr [b]"
  by (simp add: generate_bonds_def py_range_def)

text \<open>
  The claim as stated fails at the lower bound of the duration. With \<open>random()\<close> returning
  \<open>0.0\<close> at every call, the bond has one year to maturity and the duration noise is \<open>-1.0\<close>, so
  the duration is \<open>round(0.85 - 1.0, 1)\<close>, the double \<open>-0.2\<close>, which is below \<open>0.85 * 1 - 1\<close>,
  in floats as in exact arithmetic.
\<close>

theorem duration_range_counterexample:
  "map_sum id (map duration) (generate_bonds 63844811112123456 (constant_rng 0) 1) = Inr [Fin (- (3602879701896397 / 18014398509481984))]
   \<and> \<not> fle (fsub (fmul (lit (17 / 20)) (Fin 1)) (Fin 1)) (Fin (- (3602879701896397 / 18014398509481984)))
   \<and> (- (3602879701896397 / 18014398509481984) :: rat) < 17 / 20 * 1 - 1"
proof -
  from gen_bond_result [of 63844811112123456 "constant_rng 0" 0]
  obtain b where b: "gen_bond 63844811112123456 (constant_rng 0) 0 = Inr b"
    and "duration b =
           py_round 1 (fadd (fmul (Fin (of_int (1 + int (constant_rng 0 (11 * nat 0) mod 30))))
                                  (lit (17 / 20)))
                            (uniform (Fin (- 1)) (Fin 1) (constant_rng 0 (11 * nat 0 + 7))))"
    by blast
  then have "duration b = Fin (- (3602879701896397 / 18014398509481984))"
    by (simp add: constant_rng_def lit_values uniform_def fsub_def py_random_def
          fl_c17_20 fl_c17_20_m1 fl_m1_5 fl_eval)
  moreover have "\<not> fle (fsub (fmul (lit (17 / 20)) (Fin 1)) (Fin 1)) (Fin (- (3602879701896397 / 18014398509481984)))"
    by (simp add: lit_values fsub_def fl_c17_20 fl_c17_20_m1)
  ultimately show ?thesis using generate_bonds_single [OF b] by simp
qed

text \<open>
  Claim C3. Every bond returned by \<open>generate_bonds\<close> has the yield
  \<open>round(2.0 + m * 0.1 + premium + noise, 2)\<close>, where \<open>m\<close>, from \<open>1\<close> to \<open>30\<close>, is the number of
  years to the bond's maturity, the premium is \<open>1.5\<close> when the rating contains \<open>BBB\<close>, \<open>0.5\<close>
  when it does not but contains \<open>A\<close>, and the noise is some float from \<open>-0.5\<close> to \<open>0.5\<close>.
\<close>

theorem yield_value_formula:
  "\<exists>bs. generate_bonds now rng count = Inr bs \<and> length bs = nat count
      \<and> (\<forall>j < nat count. \<exists>m noise.
            1 \<le> m \<and> m \<le> 30
          \<and> maturity (bs ! j) = strftime_ymd (plus_days now (365 * m))
          \<and> fle (lit (- 1 / 2)) noise \<and> fle noise (lit (1 / 2))
          \<and> yield_value (bs ! j) =
              py_round 2
                (fadd (if contains ''BBB'' (rating (bs ! j))
                       then fadd (fadd (lit 2) (fmul (Fin (of_int m)) (lit (1 / 10)))) (lit (3 / 2))
                       else if contains ''A'' (rating (bs ! j))
                       then fadd (fadd (lit 2) (fmul (Fin (of_int m)) (lit (1 / 10)))) (lit (1 / 2))
                       else fadd (lit 2) (fmul (Fin (of_int m)) (lit (1 / 10))))
                      noise))"
proof -
  let ?P = "\<lambda>(i::int) b. \<exists>m noise.
            1 \<le> m \<and> m \<le> 30
          \<and> maturity b = strftime_ymd (plus_days now (365 * m))
          \<and> fle (lit (- 1 / 2)) noise \<and> fle noise (lit (1 / 2))
          \<and> yield_value b =
              py_round 2
                (fadd (if contains ''BBB'' (rating b)
                       then fadd (fadd (lit 2) (fmul (Fin (of_int m)) (lit (1 / 10)))) (lit (3 / 2))
                       else if contains ''A'' (rating b)
                       then fadd (fadd (lit 2) (fmul (Fin (of_int m)) (lit (1 / 10)))) (lit (1 / 2))
                       else fadd (lit 2) (fmul (Fin (of_int m)) (lit (1 / 10))))
                      noise)"
  have "\<exists>b. gen_bond now rng i = Inr b \<and> ?P i b" for i
  proof -
    define m where "m = 1 + int (rng (11 * nat i) mod 30)"
    define noise where "noise = uniform (lit (- 1 / 2)) (lit (1 / 2)) (rng (11 * nat i + 3))"
    have mr: "1 \<le> m" "m \<le> 30" using years_drawn_range by (simp_all add: m_def)
    have "in_range (- 1 / 2) (1 / 2) noise" unfolding noise_def by (rule yield_noise_range)
    then have n: "fle (lit (- 1 / 2)) noise" "fle noise (lit (1 / 2))"
      using in_range_fle [of "- 1 / 2" "1 / 2" noise] by (simp_all add: lit_values)
    from gen_bond_result [of now rng i, folded m_def noise_def]
    show ?thesis using mr n by blast
  qed
  from generate_bonds_all [of now rng ?P count, OF this] show ?thesis .
qed

theorem yield_value_formula_witness:
  "\<exists>bs. generate_bonds 63844811112123456 (constant_rng 0) 2 = Inr bs \<and> length bs = 2
      \<and> (\<forall>j < 2. \<exists>m noise.
            1 \<le> m \<and> m \<le> 30
          \<and> maturity (bs ! j) = strftime_ymd (plus_days 63844811112123456 (365 * m))
          \<and> fle (lit (- 1 / 2)) noise \<and> fle noise (lit (1 / 2))
          \<and> yield_value (bs ! j) =
              py_round 2
                (fadd (if contains ''BBB'' (rating (bs ! j))
                       then fadd (fadd (lit 2) (fmul (Fin (of_int m)) (lit (1 / 10)))) (lit (3 / 2))
                       else if contains ''A'' (rating (bs ! j))
                       then fadd (fadd (lit 2) (fmul (Fin (of_int m)) (lit (1 / 10)))) (lit (1 / 2))
                       else fadd (lit 2) (fmul (Fin (of_int m)) (lit (1 / 10))))
                      noise))"
  using yield_value_formula [of 63844811112123456 "constant_rng 0" 2] by simp

text \<open>
  Claim C6, as amended. Every bond returned by \<open>generate_bonds\<close>, for every \<open>count\<close>, has a
  duration of at least \<open>-0.2\<close>.
\<close>

theorem duration_lower_bound:
  "\<exists>bs. generate_bonds now rng count = Inr bs \<and> length bs = nat count
      \<and> (\<forall>b \<in> set bs. fle (lit (- 1 / 5)) (duration b))"
proof -
  let ?P = "\<lambda>(i::int) b. in_range (- (3602879701896397 / 18014398509481984)) (53 / 2) (duration b)"
  have "\<exists>b. gen_bond now rng i = Inr b \<and> ?P i b" for i
    using gen_bond_ranges [of now rng i] by blast
  from generate_bonds_all [of now rng ?P count, OF this]
  obtain bs where bs: "generate_bonds now rng count = Inr bs" "length bs = nat count"
    "\<forall>j < nat count. ?P (int j) (bs ! j)" by blast
  have "fle (lit (- 1 / 5)) (duration b)" if "b \<in> set bs" for b
  proof -
    from that obtain j where "j < nat count" "b = bs ! j"
      using bs(2) by (auto simp: in_set_conv_nth)
    with bs(3) have "in_range (- (3602879701896397 / 18014398509481984)) (53 / 2) (duration b)" by simp
    then show ?thesis
      using in_range_fle [of "- (3602879701896397 / 18014398509481984)" "53 / 2" "duration b"] by (simp add: lit_values)
  qed
  then show ?thesis using bs(1,2) by auto
qed

theorem duration_lower_bound_witness:
  "\<exists>bs. generate_bonds 63844811112123456 (constant_rng 0) 2 = Inr bs \<and> length bs = 2
      \<and> (\<forall>b \<in> set bs. fle (lit (- 1 / 5)) (duration b))"
  using duration_lower_bound [of 63844811112123456 "constant_rng 0" 2] by simp

lemma fl_15_2048: "fl (15 / 2048) = Fin (15 / 2048)"
  by (rule fl_normal [where e = "- 8"]) (simp_all add: fl_eval)

lemma fl_m2033_2048: "fl (- (2033 / 2048)) = Fin (- (2033 / 2048))"
  by (rule fl_normal [where e = "- 1"]) (simp_all add: fl_eval)

lemma fl_c17_20_m2033_2048: "fl (- (1285109190544589 / 9007199254740992)) = Fin (- (1285109190544589 / 9007199254740992))"
  by (rule fl_normal [where e = "- 3"]) (simp_all add: fl_eval)

text \<open>
  The claim as stated fails: a bond of one year whose duration noise is below \<open>-0.85\<close> has a
  negative duration. With every raw draw equal to \<open>30 * 2 ^ 40\<close>, the bond has one year to
  maturity, the noise is \<open>-1 + 2 * (15 / 4096)\<close>, and the duration is the double \<open>-0.1\<close>.
\<close>

theorem negative_duration_counterexample:
  "map_sum id (map duration) (generate_bonds 63844811112123456 (constant_rng (30 * 2 ^ 40)) 1)
     = Inr [Fin (- (3602879701896397 / 36028797018963968))]
   \<and> \<not> fle (Fin 0) (Fin (- (3602879701896397 / 36028797018963968)))"
proof -
  from gen_bond_result [of 63844811112123456 "constant_rng (30 * 2 ^ 40)" 0]
  obtain b where b: "gen_bond 63844811112123456 (constant_rng (30 * 2 ^ 40)) 0 = Inr b"
    and "duration b =
           py_round 1
             (fadd (fmul (Fin (of_int (1 + int (constant_rng (30 * 2 ^ 40) (11 * nat 0) mod 30))))
                         (lit (17 / 20)))
                   (uniform (Fin (- 1)) (Fin 1) (constant_rng (30 * 2 ^ 40) (11 * nat 0 + 7))))"
    by blast
  then have "duration b = Fin (- (3602879701896397 / 36028797018963968))"
    by (simp add: constant_rng_def lit_values uniform_def fsub_def py_random_def
          fl_c17_20 fl_15_2048 fl_m2033_2048 fl_c17_20_m2033_2048 fl_m1_10 fl_eval)
  then show ?thesis using generate_bonds_single [OF b] by simp
qed

section \<open>The historical series\<close>


subsection \<open>The dates\<close>







subsection \<open>The rows\<close>












section \<open>Input validation\<close>




text \<open>
  Claim C9. For every label, \<open>generate_historical_data\<close> called with \<open>days = 0\<close> returns
  the empty series and raises nothing, when the clock is in the range of the timestamps of
  pandas: \<open>date_range\<close> converts the clock, finds the start of the range at its end, one day
  after the clock, and returns no date, so the loop does not run.
\<close>

theorem historical_data_zero_days:
  "in_clock_range now \<Longrightarrow> generate_historical_data now rng isin_label 0 = Inr []"
  by (simp add: in_clock_range_def generate_historical_data_def pd_date_range_def
        to_timestamp_ns_def range_start_def np_uint64_def arange_def Let_def day_ns_def i64max_def)

theorem historical_data_zero_days_witness:
  "in_clock_range 63844811112123456 \<and>
   generate_historical_data 63844811112123456 (constant_rng 0) ''XS0000000001'' 0 = Inr []"
  using historical_data_zero_days [of 63844811112123456 "constant_rng 0" "''XS0000000001''"]
  by (simp add: in_clock_range_def i64max_def epoch_us_def day_ns_def)

section \<open>The yield curve\<close>

lemma curve_noise_range:
  "in_range (- (3602879701896397 / 36028797018963968)) (3602879701896397 / 36028797018963968) (uniform (lit (- 1 / 10)) (lit (1 / 10)) raw)"
  using uniform_in_range [of "- (3602879701896397 / 36028797018963968)" "(3602879701896397 / 36028797018963968)" "(3602879701896397 / 18014398509481984)" raw]
  by (simp add: lit_values fl_c1_10 fl_mc1_10 fl_c1_5)

lemma rates_length [simp]: "length USD_RATES = 11" "length OTHER_RATES = 11"
  by (simp_all add: USD_RATES_def OTHER_RATES_def)

lemma yield_curve_yields:
  "length (yields (generate_yield_curve rng c)) = 11"
  "j < 11 \<Longrightarrow>
     yields (generate_yield_curve rng c) ! j
       = py_round 3 (fadd ((if c = ''USD'' then USD_RATES else OTHER_RATES) ! j)
                          (uniform (lit (- 1 / 10)) (lit (1 / 10)) (rng j)))"
  by (simp_all add: generate_yield_curve_def Let_def nth_enumerate_eq)

lemma tenor_values:
  "map tenor_value TENORS = [1 / 4, 1 / 2, 1, 2, 3, 5, 7, 10, 15, 20, 30]"
  by (simp add: TENORS_def lit_def fl_1_4 fl_1_2)

text \<open>
  Claim C4. For every currency string, \<open>generate_yield_curve\<close> returns two lists of length
  \<open>11\<close>; the tenors are the fixed ascending list \<open>0.25, 0.5, 1, 2, 3, 5, 7, 10, 15, 20, 30\<close>;
  each yield is the rate at the same position of the base table plus some perturbation from
  \<open>-0.1\<close> to \<open>0.1\<close>, rounded to three decimals.
\<close>

theorem yield_curve_shape:
  "length (tenors (generate_yield_curve rng c)) = 11
   \<and> length (yields (generate_yield_curve rng c)) = 11
   \<and> tenors (generate_yield_curve rng c) = TENORS
   \<and> map tenor_value TENORS = [1 / 4, 1 / 2, 1, 2, 3, 5, 7, 10, 15, 20, 30]
   \<and> sorted_wrt (<) (map tenor_value (tenors (generate_yield_curve rng c)))
   \<and> (\<forall>j < 11. \<exists>p. fle (lit (- 1 / 10)) p \<and> fle p (lit (1 / 10))
          \<and> yields (generate_yield_curve rng c) ! j
              = py_round 3 (fadd ((if c = ''USD'' then USD_RATES else OTHER_RATES) ! j) p))"
proof -
  have t: "tenors (generate_yield_curve rng c) = TENORS"
    by (simp add: generate_yield_curve_def Let_def)
  have "\<exists>p. fle (lit (- 1 / 10)) p \<and> fle p (lit (1 / 10))
          \<and> yields (generate_yield_curve rng c) ! j
              = py_round 3 (fadd ((if c = ''USD'' then USD_RATES else OTHER_RATES) ! j) p)"
    if "j < 11" for j
  proof -
    have "fle (lit (- 1 / 10)) (uniform (lit (- 1 / 10)) (lit (1 / 10)) (rng j))"
      "fle (uniform (lit (- 1 / 10)) (lit (1 / 10)) (rng j)) (lit (1 / 10))"
      using in_range_fle [OF curve_noise_range [of "rng j"]] by (simp_all add: lit_values)
    then show ?thesis using yield_curve_yields(2) [OF that, of rng c] by blast
  qed
  then show ?thesis
    using t yield_curve_yields(1) [of rng c] tenor_values by (simp add: TENORS_def)
qed

theorem yield_curve_shape_witness:
  "length (yields (generate_yield_curve (constant_rng 0) ''EUR'')) = 11
   \<and> (\<exists>p. fle (lit (- 1 / 10)) p \<and> fle p (lit (1 / 10))
          \<and> yields (generate_yield_curve (constant_rng 0) ''EUR'') ! 10
              = py_round 3 (fadd (OTHER_RATES ! 10) p))"
  using yield_curve_shape [of "constant_rng 0" "''EUR''"] by simp

text \<open>
  Claim C5. \<open>generate_yield_curve\<close> has no failing branch, and it sorts its argument in two
  classes: for the string \<open>USD\<close> the yields are built on the table
  \<open>3.5, 3.7, 3.9, 4.0, 4.1, 4.2, 4.3, 4.4, 4.5, 4.6, 4.7\<close>, for every other string on the table
  \<open>2.5, 2.7, 2.9, 3.0, 3.1, 3.2, 3.3, 3.4, 3.5, 3.6, 3.7\<close>; in both cases it returns the fixed
  tenors and eleven yields, the rate of the table plus the noise of the draw, rounded.
\<close>

theorem yield_curve_base_table:
  "tenors (generate_yield_curve rng c) = TENORS
   \<and> length (yields (generate_yield_curve rng c)) = 11
   \<and> (\<forall>j < 11.
         yields (generate_yield_curve rng c) ! j
           = py_round 3
               (fadd ((if c = ''USD''
                       then map lit [7 / 2, 37 / 10, 39 / 10, 4, 41 / 10, 42 / 10, 43 / 10,
                                     44 / 10, 9 / 2, 46 / 10, 47 / 10]
                       else map lit [5 / 2, 27 / 10, 29 / 10, 3, 31 / 10, 32 / 10, 33 / 10,
                                     34 / 10, 7 / 2, 36 / 10, 37 / 10]) ! j)
                     (uniform (lit (- 1 / 10)) (lit (1 / 10)) (rng j))))"
proof -
  have "tenors (generate_yield_curve rng c) = TENORS"
    by (simp add: generate_yield_curve_def Let_def)
  moreover have "(if c = ''USD'' then USD_RATES else OTHER_RATES)
      = (if c = ''USD''
         then map lit [7 / 2, 37 / 10, 39 / 10, 4, 41 / 10, 42 / 10, 43 / 10,
                       44 / 10, 9 / 2, 46 / 10, 47 / 10]
         else map lit [5 / 2, 27 / 10, 29 / 10, 3, 31 / 10, 32 / 10, 33 / 10,
                       34 / 10, 7 / 2, 36 / 10, 37 / 10])"
    unfolding USD_RATES_def OTHER_RATES_def by (rule refl)
  ultimately show ?thesis
    using yield_curve_yields(1) [of rng c] yield_curve_yields(2) [of _ rng c] by simp
qed

theorem yield_curve_base_table_witness:
  "yields (generate_yield_curve (constant_rng 0) ''XYZ'') ! 3
     = py_round 3 (fadd (lit 3) (uniform (lit (- 1 / 10)) (lit (1 / 10)) 0))
   \<and> yields (generate_yield_curve (constant_rng 0) ''USD'') ! 3
     = py_round 3 (fadd (lit 4) (uniform (lit (- 1 / 10)) (lit (1 / 10)) 0))"
  using yield_curve_base_table [of "constant_rng 0" "''XYZ''"]
    yield_curve_base_table [of "constant_rng 0" "''USD''"]
  by (simp add: constant_rng_def)

section \<open>Total return\<close>

text \<open>
  Claim C10. \<open>calculate_total_return\<close> reads only the coupon of its bond: two bonds with
  the same coupon give the same result for the same holding period and the same random
  draw, whatever their other fields are.
\<close>

theorem total_return_reads_coupon_only:
  "coupon b1 = coupon b2 \<Longrightarrow>
     calculate_total_return rng b1 holding_period_days
       = calculate_total_return rng b2 holding_period_days"
  by (simp add: calculate_total_return_def)

theorem total_return_reads_coupon_only_witness:
  "coupon (sample_bond ''USD'' (Fin 5)) = coupon (sample_bond ''EUR'' (Fin 5)) \<and>
   sample_bond ''USD'' (Fin 5) \<noteq> sample_bond ''EUR'' (Fin 5) \<and>
   calculate_total_return (constant_rng 0) (sample_bond ''USD'' (Fin 5)) 30
     = calculate_total_return (constant_rng 0) (sample_bond ''EUR'' (Fin 5)) 30"
  using total_return_reads_coupon_only
          [of "sample_bond ''USD'' (Fin 5)" "sample_bond ''EUR'' (Fin 5)" "constant_rng 0" 30]
  by (simp add: sample_bond_def)


text \<open>The largest double.\<close>

lemma fl_max_double: "fl (2 ^ 1024 - 2 ^ 971) = Fin (2 ^ 1024 - 2 ^ 971)"
  by (rule fl_normal [where e = 1023]) (simp_all add: fl_eval)

lemma round_to_grid_max_double: "round_to_grid (2 ^ 1024 - 2 ^ 971) = 2 ^ 1024 - 2 ^ 971"
  using fl_max_double by (simp add: fl_Fin_iff)

text \<open>
  The threshold of overflow is \<open>2 ^ 1024 - 2 ^ 970\<close>, half a unit in the last place above the
  largest double: it rounds to \<open>2 ^ 1024\<close>, and everything below it rounds to a double.
\<close>

lemma round_to_grid_threshold: "round_to_grid (2 ^ 1024 - 2 ^ 970) = huge"
proof -
  have "round_to_grid (2 ^ 1024 - 2 ^ 970)
          = of_int (rne ((2 ^ 1024 - 2 ^ 970) / 2 powi (1023 - 52))) * 2 powi (1023 - 52)"
    by (rule round_to_grid_normal) simp_all
  also have "\<dots> = 2 ^ 1024" by (simp add: fl_eval)
  finally show ?thesis by (simp add: huge_def)
qed

lemma rne_below_half:
  assumes "y < of_int n + 1 / 2"
  shows "rne y \<le> n"
proof (cases "\<lfloor>y\<rfloor> < n")
  case True
  then show ?thesis using rne_le_floor1 [of y] by linarith
next
  case False
  have "y < of_int (n + 1)" using assms by simp
  then have "\<lfloor>y\<rfloor> < n + 1" by (simp only: floor_less_iff)
  then have f: "\<lfloor>y\<rfloor> = n" using False by linarith
  then have "y - of_int \<lfloor>y\<rfloor> < 1 / 2" using assms by simp
  then show ?thesis using f by (simp add: rne_def Let_def)
qed

lemma round_to_grid_below_threshold:
  assumes "0 \<le> x" and "x < 2 ^ 1024 - 2 ^ 970"
  shows "round_to_grid x \<le> 2 ^ 1024 - 2 ^ 971"
proof (cases "x \<le> 2 ^ 1024 - 2 ^ 971")
  case True
  then show ?thesis using round_to_grid_mono [OF True] round_to_grid_max_double by simp
next
  case False
  then have lo: "(2::rat) powi 1023 \<le> \<bar>x\<bar>" by simp
  have hi: "\<bar>x\<bar> < 2 powi (1023 + 1)" using assms by simp
  have r: "round_to_grid x = of_int (rne (x / 2 powi (1023 - 52))) * 2 powi (1023 - 52)"
    by (rule round_to_grid_normal [OF lo hi]) simp
  have "x / 2 powi (1023 - 52) < of_int (2 ^ 53 - 1) + 1 / 2"
    using assms(2) by (simp add: divide_less_eq)
  then have "rne (x / 2 powi (1023 - 52)) \<le> 2 ^ 53 - 1" by (rule rne_below_half)
  then have "(of_int (rne (x / 2 powi (1023 - 52))) :: rat) \<le> of_int (2 ^ 53 - 1)"
    by (simp only: of_int_le_iff)
  then have "round_to_grid x \<le> of_int (2 ^ 53 - 1) * 2 powi (1023 - 52)"
    unfolding r by (intro mult_right_mono) auto
  then show ?thesis by simp
qed

lemma fl_finite_below_threshold:
  assumes "\<bar>x\<bar> < 2 ^ 1024 - 2 ^ 970"
  shows "\<exists>q. fl x = Fin q"
proof -
  have "0 \<le> round_to_grid \<bar>x\<bar>" by (intro round_to_grid_nonneg) simp
  moreover have "round_to_grid \<bar>x\<bar> \<le> 2 ^ 1024 - 2 ^ 971"
    using assms by (intro round_to_grid_below_threshold) simp_all
  moreover have "round_to_grid \<bar>x\<bar> = \<bar>round_to_grid x\<bar>"
    using round_to_grid_nonneg [of x] round_to_grid_nonneg [of "- x"]
    by (cases "0 \<le> x") (simp_all add: round_to_grid_minus abs_if)
  ultimately have "\<bar>round_to_grid x\<bar> < huge" by (simp add: huge_def)
  then show ?thesis by (simp add: fl_Fin_iff abs_less_iff)
qed

lemma fl_overflow:
  "2 ^ 1024 - 2 ^ 970 \<le> x \<Longrightarrow> fl x = PInf"
  "x \<le> - (2 ^ 1024 - 2 ^ 970) \<Longrightarrow> fl x = NInf"
proof -
  show "fl x = PInf" if "2 ^ 1024 - 2 ^ 970 \<le> x"
    using round_to_grid_mono [OF that] round_to_grid_threshold by (simp add: fl_def)
  show "fl x = NInf" if "x \<le> - (2 ^ 1024 - 2 ^ 970)"
  proof -
    have "round_to_grid x \<le> - huge"
      using round_to_grid_mono [OF that] round_to_grid_threshold
      by (simp add: round_to_grid_minus)
    moreover have "(0::rat) < huge" by (simp add: huge_def)
    ultimately show ?thesis by (simp add: fl_def)
  qed
qed

lemma int_truediv_365:
  assumes "\<bar>days\<bar> < 365 * (2 ^ 1024 - 2 ^ 970)"
  shows "\<exists>q. int_truediv days 365 = Inr (Fin q)"
proof -
  have "\<bar>(of_int days :: rat)\<bar> < of_int (365 * (2 ^ 1024 - 2 ^ 970))"
    using assms by (metis of_int_abs of_int_less_iff)
  then have "\<bar>(of_int days :: rat) / 365\<bar> < 2 ^ 1024 - 2 ^ 970" by simp
  from fl_finite_below_threshold [OF this]
  show ?thesis by (auto simp: int_truediv_def)
qed

lemma int_truediv_365_overflow:
  assumes "365 * (2 ^ 1024 - 2 ^ 970) \<le> \<bar>days\<bar>"
  shows "int_truediv days 365 = Inl OverflowError"
proof -
  have "(of_int (365 * (2 ^ 1024 - 2 ^ 970)) :: rat) \<le> \<bar>of_int days\<bar>"
    using assms by (metis of_int_abs of_int_le_iff)
  then have "2 ^ 1024 - 2 ^ 970 \<le> \<bar>(of_int days :: rat) / 365\<bar>" by simp
  then have "2 ^ 1024 - 2 ^ 970 \<le> (of_int days :: rat) / 365
      \<or> (of_int days :: rat) / 365 \<le> - (2 ^ 1024 - 2 ^ 970)"
    by linarith
  then show ?thesis using fl_overflow [of "of_int days / 365"]
    by (auto simp: int_truediv_def)
qed

lemma price_return_range:
  "\<exists>r. fdiv (uniform (Fin (- 2)) (Fin 2) raw) (Fin 100) = Inr r \<and> in_range (- (5764607523034235 / 288230376151711744)) (5764607523034235 / 288230376151711744) r"
proof -
  have "in_range (- 2) 2 (uniform (Fin (- 2)) (Fin 2) raw)"
    by (rule uniform_in_range [where d = 4]) simp_all
  then obtain u where u: "uniform (Fin (- 2)) (Fin 2) raw = Fin u" "- 2 \<le> u" "u \<le> 2"
    by (rule in_rangeE)
  have "in_range (- (5764607523034235 / 288230376151711744)) (5764607523034235 / 288230376151711744) (fl (u / 100))"
    by (rule in_range_fl) (use u in \<open>simp_all add: fl_c1_50 fl_mc1_50\<close>)
  then show ?thesis by (simp add: u)
qed

text \<open>
  Claim C8, as amended. For every bond and every holding period below
  \<open>365 * (2 ^ 1024 - 2 ^ 970)\<close> days in absolute value, \<open>calculate_total_return\<close> returns
  \<open>round((coupon / 100 * (days / 365) + r) * 100, 2)\<close> in float arithmetic, for some float \<open>r\<close>
  from \<open>-0.02\<close> to \<open>0.02\<close>. For every other holding period the quotient \<open>days / 365\<close> does not
  fit a double: the division raises \<open>OverflowError\<close>, and so does the function.
\<close>

theorem total_return_formula:
  "(\<bar>days\<bar> < 365 * (2 ^ 1024 - 2 ^ 970) \<longrightarrow>
      (\<exists>coupon_rate year_fraction r.
          fdiv (coupon bond) (Fin 100) = Inr coupon_rate
        \<and> int_truediv days 365 = Inr year_fraction
        \<and> fle (lit (- 1 / 50)) r \<and> fle r (lit (1 / 50))
        \<and> calculate_total_return rng bond days
            = Inr (py_round 2 (fmul (fadd (fmul coupon_rate year_fraction) r) (Fin 100)))))
   \<and> (365 * (2 ^ 1024 - 2 ^ 970) \<le> \<bar>days\<bar> \<longrightarrow>
        calculate_total_return rng bond days = Inl OverflowError)"
proof (intro conjI impI)
  assume "\<bar>days\<bar> < 365 * (2 ^ 1024 - 2 ^ 970)"
  from int_truediv_365 [OF this] obtain q where q: "int_truediv days 365 = Inr (Fin q)" ..
  obtain cr where cr: "fdiv (coupon bond) (Fin 100) = Inr cr" by simp
  from price_return_range [of "rng 0"]
  obtain r where r: "fdiv (uniform (Fin (- 2)) (Fin 2) (rng 0)) (Fin 100) = Inr r"
    "in_range (- (5764607523034235 / 288230376151711744)) (5764607523034235 / 288230376151711744) r" by blast
  have "fle (lit (- 1 / 50)) r" "fle r (lit (1 / 50))"
    using in_range_fle [OF r(2)] by (simp_all add: lit_def fl_1_50 fl_m1_50)
  moreover have "calculate_total_return rng bond days
            = Inr (py_round 2 (fmul (fadd (fmul cr (Fin q)) r) (Fin 100)))"
    by (simp add: calculate_total_return_def cr q r(1) Let_def del: fdiv.simps)
  ultimately show "\<exists>coupon_rate year_fraction r.
          fdiv (coupon bond) (Fin 100) = Inr coupon_rate
        \<and> int_truediv days 365 = Inr year_fraction
        \<and> fle (lit (- 1 / 50)) r \<and> fle r (lit (1 / 50))
        \<and> calculate_total_return rng bond days
            = Inr (py_round 2 (fmul (fadd (fmul coupon_rate year_fraction) r) (Fin 100)))"
    using cr q by blast
next
  assume "365 * (2 ^ 1024 - 2 ^ 970) \<le> \<bar>days\<bar>"
  from int_truediv_365_overflow [OF this]
  show "calculate_total_return rng bond days = Inl OverflowError"
    by (simp add: calculate_total_return_def)
qed

theorem total_return_formula_witness:
  "(\<exists>coupon_rate year_fraction r.
          fdiv (coupon (sample_bond ''USD'' (Fin 5))) (Fin 100) = Inr coupon_rate
        \<and> int_truediv 30 365 = Inr year_fraction
        \<and> fle (lit (- 1 / 50)) r \<and> fle r (lit (1 / 50))
        \<and> calculate_total_return (constant_rng 0) (sample_bond ''USD'' (Fin 5)) 30
            = Inr (py_round 2 (fmul (fadd (fmul coupon_rate year_fraction) r) (Fin 100))))
   \<and> calculate_total_return (constant_rng 0) (sample_bond ''USD'' (Fin 5)) (- (365 * 2 ^ 1024))
       = Inl OverflowError"
  using total_return_formula [of 30 "sample_bond ''USD'' (Fin 5)" "constant_rng 0"]
    total_return_formula [of "- (365 * 2 ^ 1024)" "sample_bond ''USD'' (Fin 5)" "constant_rng 0"]
  by simp

text \<open>
  The claim as stated fails for a holding period that is too large for a double: the call
  with \<open>365 * 2 ^ 1024\<close> days raises \<open>OverflowError\<close> in \<open>holding_period_days / 365\<close> and returns
  nothing.
\<close>

theorem total_return_overflow_counterexample:
  "calculate_total_return (constant_rng 0) (sample_bond ''USD'' (Fin 5)) (365 * 2 ^ 1024)
     = Inl OverflowError"
proof -
  have "fl (2 ^ 1024) = PInf"
    using fl_overflow(1) [of "2 ^ 1024"] by simp
  then have "int_truediv (365 * 2 ^ 1024) 365 = Inl OverflowError"
    by (simp add: int_truediv_def)
  then show ?thesis
    by (simp add: calculate_total_return_def sample_bond_def)
qed

end
